theory Spec2Isabelle
  imports Main "HOL-Library.Word" "HOL-Library.Signed_Division"
begin

section \<open>Scalars, error codes and semiring tags (palma.h)\<close>

text \<open>
  \<open>palma_val_t\<close> is \<open>int32_t\<close>: a 32-bit word read in two's complement by \<open>sint\<close>.
  Comparisons of the source are signed (\<open><s\<close>, \<open>\<le>s\<close>). Sizes and counters of type
  \<open>size_t\<close> and \<open>unsigned int\<close> are natural numbers: the model covers matrices whose
  dimensions and entry counts fit these types. The cells of type \<open>palma_idx_t\<close>
  (\<open>uint32_t\<close>) of a sparse matrix hold natural numbers that every store reduces
  modulo \<open>2^32\<close>, see \<open>idx_cast\<close> below.
\<close>

type_synonym palma_val_t = "32 word"

definition INT32_MAX :: int where
  "INT32_MAX = 2147483647"

definition INT32_MIN :: int where
  "INT32_MIN = - 2147483648"

definition PALMA_NEG_INF :: palma_val_t where
  "PALMA_NEG_INF = word_of_int INT32_MIN"

definition PALMA_POS_INF :: palma_val_t where
  "PALMA_POS_INF = word_of_int INT32_MAX"


definition PALMA_DEFAULT_TOL :: palma_val_t where
  "PALMA_DEFAULT_TOL = 1"

datatype palma_error_t =
    PALMA_SUCCESS
  | PALMA_ERR_NULL_PTR
  | PALMA_ERR_INVALID_DIM
  | PALMA_ERR_OUT_OF_MEMORY
  | PALMA_ERR_INVALID_ARG
  | PALMA_ERR_NOT_SQUARE
  | PALMA_ERR_NOT_CONVERGED
  | PALMA_ERR_FILE_OPEN
  | PALMA_ERR_FILE_READ
  | PALMA_ERR_FILE_WRITE
  | PALMA_ERR_FILE_FORMAT
  | PALMA_ERR_INDEX_BOUNDS
  | PALMA_ERR_SPARSE_FORMAT
  | PALMA_ERR_UNSUPPORTED

datatype palma_semiring_t =
    PALMA_MAXPLUS
  | PALMA_MINPLUS
  | PALMA_MAXMIN
  | PALMA_MINMAX
  | PALMA_BOOLEAN

section \<open>Semiring operations (palma.c)\<close>

text \<open>
  The \<open>default:\<close> branches of the C switches are unreachable for a value of the
  enumeration and have no counterpart here.
\<close>

fun palma_zero :: "palma_semiring_t \<Rightarrow> palma_val_t" where
  "palma_zero PALMA_MAXPLUS = PALMA_NEG_INF"
| "palma_zero PALMA_MINPLUS = PALMA_POS_INF"
| "palma_zero PALMA_MAXMIN = PALMA_NEG_INF"
| "palma_zero PALMA_MINMAX = PALMA_POS_INF"
| "palma_zero PALMA_BOOLEAN = 0"

fun palma_one :: "palma_semiring_t \<Rightarrow> palma_val_t" where
  "palma_one PALMA_MAXPLUS = 0"
| "palma_one PALMA_MINPLUS = 0"
| "palma_one PALMA_MAXMIN = PALMA_POS_INF"
| "palma_one PALMA_MINMAX = PALMA_NEG_INF"
| "palma_one PALMA_BOOLEAN = 1"

fun palma_add :: "palma_val_t \<Rightarrow> palma_val_t \<Rightarrow> palma_semiring_t \<Rightarrow> palma_val_t" where
  "palma_add a b PALMA_MAXPLUS = (if b <s a then a else b)"
| "palma_add a b PALMA_MAXMIN = (if b <s a then a else b)"
| "palma_add a b PALMA_MINPLUS = (if a <s b then a else b)"
| "palma_add a b PALMA_MINMAX = (if a <s b then a else b)"
| "palma_add a b PALMA_BOOLEAN = (if a \<noteq> 0 \<or> b \<noteq> 0 then 1 else 0)"

text \<open>
  The additive-tropical product: the two sentinel tests in the order of the source
  (\<open>NEG_INF\<close> first, whatever the semiring), then the sum in 64 bits, which cannot
  overflow for two 32-bit operands and is the exact integer sum.
\<close>

definition palma_mul_plus :: "palma_val_t \<Rightarrow> palma_val_t \<Rightarrow> palma_val_t" where
  "palma_mul_plus a b =
     (if a = PALMA_NEG_INF \<or> b = PALMA_NEG_INF then PALMA_NEG_INF
      else if a = PALMA_POS_INF \<or> b = PALMA_POS_INF then PALMA_POS_INF
      else (let sum = sint a + sint b in
            if sum > INT32_MAX then PALMA_POS_INF
            else if sum < INT32_MIN then PALMA_NEG_INF
            else word_of_int sum))"

fun palma_mul :: "palma_val_t \<Rightarrow> palma_val_t \<Rightarrow> palma_semiring_t \<Rightarrow> palma_val_t" where
  "palma_mul a b PALMA_MAXPLUS = palma_mul_plus a b"
| "palma_mul a b PALMA_MINPLUS = palma_mul_plus a b"
| "palma_mul a b PALMA_MAXMIN = (if a <s b then a else b)"
| "palma_mul a b PALMA_MINMAX = (if b <s a then a else b)"
| "palma_mul a b PALMA_BOOLEAN = (if a \<noteq> 0 \<and> b \<noteq> 0 then 1 else 0)"

definition palma_is_zero :: "palma_val_t \<Rightarrow> palma_semiring_t \<Rightarrow> bool" where
  "palma_is_zero a semiring = (a = palma_zero semiring)"


section \<open>Dense matrices (palma.h, palma.c)\<close>

text \<open>
  \<open>palma_matrix_t\<close>: a row-major buffer with a row stride. Element \<open>(row, col)\<close> is
  \<open>data[row * stride + col]\<close>; \<open>palma_matrix_get\<close> and \<open>palma_matrix_set\<close> do not
  check their indices (in C an index past the buffer is undefined behaviour; here the
  read is an unspecified value and the write is dropped), so the theorems below speak
  about indices inside the matrix, see \<open>matrix_ok\<close>.
\<close>

record palma_matrix_t =
  data :: "palma_val_t list"
  rows :: nat
  cols :: nat
  stride :: nat
  owns_data :: bool

definition ALIGN_STRIDE :: "nat \<Rightarrow> nat" where
  "ALIGN_STRIDE c = ((c + 3) div 4) * 4"

definition palma_matrix_get :: "palma_matrix_t \<Rightarrow> nat \<Rightarrow> nat \<Rightarrow> palma_val_t" where
  "palma_matrix_get mat row col = data mat ! (row * stride mat + col)"

definition palma_matrix_set :: "palma_matrix_t \<Rightarrow> nat \<Rightarrow> nat \<Rightarrow> palma_val_t \<Rightarrow> palma_matrix_t" where
  "palma_matrix_set mat row col val = mat\<lparr>data := (data mat)[row * stride mat + col := val]\<rparr>"

text \<open>
  \<open>palma_matrix_create_zero\<close> is \<open>palma_matrix_create\<close> followed by the loop that
  fills all \<open>rows * stride\<close> cells with the semiring zero, so the uninitialised buffer
  of \<open>palma_matrix_create\<close> is never observed. The flag \<open>alloc\<close> says whether the
  allocations of the call succeed. The second component is the last-error slot after
  the call.
\<close>

definition palma_matrix_create_zero ::
  "bool \<Rightarrow> nat \<Rightarrow> nat \<Rightarrow> palma_semiring_t \<Rightarrow> palma_matrix_t option \<times> palma_error_t" where
  "palma_matrix_create_zero alloc r c semiring =
     (if r = 0 \<or> c = 0 then (None, PALMA_ERR_INVALID_DIM)
      else if \<not> alloc then (None, PALMA_ERR_OUT_OF_MEMORY)
      else (Some \<lparr>data = replicate (r * ALIGN_STRIDE c) (palma_zero semiring),
                  rows = r, cols = c, stride = ALIGN_STRIDE c, owns_data = True\<rparr>,
            PALMA_SUCCESS))"


section \<open>Matrix-vector product (palma.c)\<close>

text \<open>
  The scalar path of \<open>palma_matvec\<close> (\<open>PALMA_USE_NEON\<close> is 0), for non-null arguments:
  its callers below pass pointers they have checked or allocated.
\<close>

definition palma_matvec ::
  "palma_matrix_t \<Rightarrow> palma_val_t list \<Rightarrow> palma_semiring_t \<Rightarrow> palma_val_t list" where
  "palma_matvec A x semiring =
     map (\<lambda>i. fold (\<lambda>j sum. palma_add sum (palma_mul (palma_matrix_get A i j) (x ! j) semiring) semiring)
                 [0..<cols A] (palma_zero semiring))
         [0..<rows A]"

section \<open>Karp's algorithm: \<open>palma_eigenvalue\<close>\<close>

text \<open>
  The table \<open>D\<close> has \<open>n + 1\<close> rows of length \<open>n\<close>: row \<open>0\<close> is filled with the one of
  the semiring, the others with its zero, and rows \<open>1..n\<close> are then computed from the
  row above. \<open>karp_best\<close> is the loop over \<open>u\<close> for one cell and \<open>karp_next\<close> the
  loop over \<open>v\<close> for one row.
\<close>

definition karp_init :: "palma_semiring_t \<Rightarrow> nat \<Rightarrow> palma_val_t list list" where
  "karp_init semiring n =
     map (\<lambda>k. replicate n (if k = 0 then palma_one semiring else palma_zero semiring)) [0..<Suc n]"

definition karp_best ::
  "palma_matrix_t \<Rightarrow> palma_semiring_t \<Rightarrow> nat \<Rightarrow> palma_val_t list \<Rightarrow> nat \<Rightarrow> palma_val_t" where
  "karp_best A semiring n Dprev v =
     fold (\<lambda>u best.
             let edge = palma_matrix_get A u v in
             if edge \<noteq> palma_zero semiring \<and> Dprev ! u \<noteq> palma_zero semiring
             then palma_add best (palma_mul (Dprev ! u) edge semiring) semiring
             else best)
          [0..<n] (palma_zero semiring)"

definition karp_next ::
  "palma_matrix_t \<Rightarrow> palma_semiring_t \<Rightarrow> nat \<Rightarrow> palma_val_t list \<Rightarrow> palma_val_t list" where
  "karp_next A semiring n Dprev = map (karp_best A semiring n Dprev) [0..<n]"

definition karp_fill ::
  "palma_matrix_t \<Rightarrow> palma_semiring_t \<Rightarrow> nat \<Rightarrow> palma_val_t list list \<Rightarrow> palma_val_t list list" where
  "karp_fill A semiring n D0 =
     fold (\<lambda>k D. D[k := karp_next A semiring n (D ! (k - 1))]) [1..<Suc n] D0"

text \<open>
  One candidate mean: the difference is taken in 64 bits (exact), set to 0 outside
  MaxPlus and MinPlus, divided with C's truncating division by \<open>n - k\<close>, and converted
  to \<open>palma_val_t\<close>.
\<close>

definition karp_mean ::
  "palma_semiring_t \<Rightarrow> nat \<Rightarrow> palma_val_t \<Rightarrow> palma_val_t \<Rightarrow> nat \<Rightarrow> palma_val_t" where
  "karp_mean semiring n dn dk k =
     (let diff = (if semiring = PALMA_MAXPLUS \<or> semiring = PALMA_MINPLUS
                  then sint dn - sint dk else 0)
      in word_of_int (diff sdiv int (n - k)))"

definition karp_min_for_v ::
  "palma_semiring_t \<Rightarrow> nat \<Rightarrow> palma_val_t list list \<Rightarrow> nat \<Rightarrow> palma_val_t" where
  "karp_min_for_v semiring n D v =
     fold (\<lambda>k min_for_v.
             if D ! k ! v \<noteq> palma_zero semiring
             then (let mean = karp_mean semiring n (D ! n ! v) (D ! k ! v) k
                   in if mean <s min_for_v then mean else min_for_v)
             else min_for_v)
          [0..<n] PALMA_POS_INF"

definition karp_max_mean ::
  "palma_semiring_t \<Rightarrow> nat \<Rightarrow> palma_val_t list list \<Rightarrow> palma_val_t" where
  "karp_max_mean semiring n D =
     fold (\<lambda>v max_mean.
             if D ! n ! v = palma_zero semiring then max_mean
             else (let min_for_v = karp_min_for_v semiring n D v
                   in if min_for_v \<noteq> PALMA_POS_INF \<and> max_mean <s min_for_v
                      then min_for_v else max_mean))
          [0..<n] PALMA_NEG_INF"

text \<open>
  \<open>palma_eigenvalue\<close> returns the value and the last-error slot, which every path of
  the function writes. \<open>None\<close> is the null pointer.
\<close>

definition palma_eigenvalue ::
  "bool \<Rightarrow> palma_matrix_t option \<Rightarrow> palma_semiring_t \<Rightarrow> palma_val_t \<times> palma_error_t" where
  "palma_eigenvalue alloc A semiring =
     (case A of
        None \<Rightarrow> (PALMA_NEG_INF, PALMA_ERR_NULL_PTR)
      | Some M \<Rightarrow>
          if rows M \<noteq> cols M then (PALMA_NEG_INF, PALMA_ERR_NOT_SQUARE)
          else if \<not> alloc then (PALMA_NEG_INF, PALMA_ERR_OUT_OF_MEMORY)
          else (karp_max_mean semiring (rows M)
                  (karp_fill M semiring (rows M) (karp_init semiring (rows M))),
                PALMA_SUCCESS))"

section \<open>Power iteration: \<open>palma_eigenvector\<close>\<close>

text \<open>
  The normalisation subtracts \<open>lambda\<close> from every component of \<open>y\<close> that is not the
  zero of the semiring. The subtraction is the 32-bit one (\<open>y[i] -= lambda\<close>) and wraps
  in two's complement.
\<close>

definition eigenvector_normalize ::
  "palma_semiring_t \<Rightarrow> palma_val_t \<Rightarrow> nat \<Rightarrow> palma_val_t list \<Rightarrow> palma_val_t list" where
  "eigenvector_normalize semiring lambda n y =
     (if semiring = PALMA_MAXPLUS \<or> semiring = PALMA_MINPLUS
      then fold (\<lambda>i y. if y ! i \<noteq> palma_zero semiring then y[i := y ! i - lambda] else y) [0..<n] y
      else y)"






section \<open>Critical nodes\<close>

text \<open>
  \<open>critical_nodes\<close> is the caller's array of C \<open>int\<close>s (\<open>None\<close>: null pointer).
  \<open>lambda - PALMA_DEFAULT_TOL\<close> is computed where \<open>lambda\<close> is not \<open>INT32_MIN\<close>, so
  it does not overflow; \<open>cycle_weight / 2\<close> is C's truncating division.
\<close>

definition memset_zero :: "int list \<Rightarrow> nat \<Rightarrow> int list" where
  "memset_zero buf n = fold (\<lambda>i b. b[i := 0]) [0..<n] buf"

definition critical_pair ::
  "palma_matrix_t \<Rightarrow> palma_semiring_t \<Rightarrow> palma_val_t \<Rightarrow> nat \<Rightarrow> nat \<Rightarrow> int list \<Rightarrow> int list" where
  "critical_pair A semiring lambda i j critical_nodes =
     (let a_ij = palma_matrix_get A i j; a_ji = palma_matrix_get A j i in
      if a_ij \<noteq> palma_zero semiring \<and> a_ji \<noteq> palma_zero semiring then
        (let cycle_weight = palma_mul a_ij a_ji semiring in
         if semiring = PALMA_MAXPLUS \<or> semiring = PALMA_MINPLUS then
           (let mean = (word_of_int (sint cycle_weight sdiv 2) :: palma_val_t) in
            if sint lambda - sint PALMA_DEFAULT_TOL \<le> sint mean
            then critical_nodes[i := 1, j := 1] else critical_nodes)
         else critical_nodes)
      else critical_nodes)"

definition critical_node ::
  "palma_matrix_t \<Rightarrow> palma_semiring_t \<Rightarrow> palma_val_t \<Rightarrow> nat \<Rightarrow> nat \<Rightarrow> int list \<Rightarrow> int list" where
  "critical_node A semiring lambda n i critical_nodes =
     (let c = fold (critical_pair A semiring lambda i) [0..<n] critical_nodes;
          diag = palma_matrix_get A i i
      in if diag \<noteq> palma_zero semiring \<and> sint lambda - sint PALMA_DEFAULT_TOL \<le> sint diag
         then c[i := 1] else c)"

definition palma_critical_nodes ::
  "bool \<Rightarrow> palma_matrix_t option \<Rightarrow> int list option \<Rightarrow> palma_semiring_t
     \<Rightarrow> int \<times> int list option \<times> palma_error_t" where
  "palma_critical_nodes alloc A critical_nodes semiring =
     (case A of
        None \<Rightarrow> (- 1, critical_nodes, PALMA_ERR_NULL_PTR)
      | Some M \<Rightarrow>
         (case critical_nodes of
            None \<Rightarrow> (- 1, None, PALMA_ERR_NULL_PTR)
          | Some buf \<Rightarrow>
              if rows M \<noteq> cols M then (- 1, Some buf, PALMA_ERR_NOT_SQUARE)
              else
                (let n = rows M; (lambda, err) = palma_eigenvalue alloc (Some M) semiring in
                 if lambda = PALMA_NEG_INF then (0, Some (memset_zero buf n), err)
                 else
                   (let c = fold (critical_node M semiring lambda n) [0..<n] (memset_zero buf n);
                        count = fold (\<lambda>i count. if c ! i \<noteq> 0 then count + 1 else count) [0..<n] 0
                    in (count, Some c, PALMA_SUCCESS)))))"

text \<open>The matrices of the examples in example_eigenvalue.c.\<close>

definition example_A1 :: palma_matrix_t where
  "example_A1 =
     (let A = the (fst (palma_matrix_create_zero True 3 3 PALMA_MAXPLUS));
          A = palma_matrix_set A 1 0 5;
          A = palma_matrix_set A 2 1 3;
          A = palma_matrix_set A 0 2 4
      in A)"

definition example_A2 :: palma_matrix_t where
  "example_A2 =
     (let A = the (fst (palma_matrix_create_zero True 3 3 PALMA_MAXPLUS));
          A = palma_matrix_set A 1 0 3;
          A = palma_matrix_set A 0 1 5;
          A = palma_matrix_set A 2 0 2;
          A = palma_matrix_set A 0 2 4
      in A)"

section \<open>Scheduler\<close>

text \<open>
  \<open>palma_scheduler_t\<close>. The scheduler's semiring field is \<open>sched_semiring\<close> here, and
  \<open>system\<close> is the matrix behind the pointer, which is not null in a scheduler that
  \<open>palma_scheduler_create\<close> returned.
\<close>

record palma_scheduler_t =
  system :: palma_matrix_t
  state :: "palma_val_t list"
  input :: "palma_val_t list"
  n_tasks :: nat
  sched_semiring :: palma_semiring_t
  task_names :: "string option list option"

text \<open>
  With \<open>n_tasks = 0\<close> the system matrix cannot be created and the function reports
  out of memory, as it does when an allocation fails.
\<close>

definition palma_scheduler_create ::
  "bool \<Rightarrow> nat \<Rightarrow> bool \<Rightarrow> palma_scheduler_t option \<times> palma_error_t" where
  "palma_scheduler_create alloc n use_maxplus =
     (let semiring = (if use_maxplus then PALMA_MAXPLUS else PALMA_MINPLUS) in
      if \<not> alloc then (None, PALMA_ERR_OUT_OF_MEMORY)
      else case fst (palma_matrix_create_zero alloc n n semiring) of
             None \<Rightarrow> (None, PALMA_ERR_OUT_OF_MEMORY)
           | Some A \<Rightarrow>
               (Some \<lparr>system = A,
                      state = replicate n (palma_zero semiring),
                      input = replicate n (palma_zero semiring),
                      n_tasks = n, sched_semiring = semiring, task_names = None\<rparr>,
                PALMA_SUCCESS))"

definition palma_scheduler_add_constraint ::
  "palma_scheduler_t option \<Rightarrow> nat \<Rightarrow> nat \<Rightarrow> palma_val_t \<Rightarrow> palma_error_t \<times> palma_scheduler_t option" where
  "palma_scheduler_add_constraint sched from to duration =
     (case sched of
        None \<Rightarrow> (PALMA_ERR_NULL_PTR, None)
      | Some sc \<Rightarrow>
          if from \<ge> n_tasks sc \<or> to \<ge> n_tasks sc then (PALMA_ERR_INDEX_BOUNDS, Some sc)
          else
            (let current = palma_matrix_get (system sc) to from;
                 updated = palma_add current duration (sched_semiring sc)
             in (PALMA_SUCCESS, Some (sc\<lparr>system := palma_matrix_set (system sc) to from updated\<rparr>))))"

definition palma_scheduler_set_ready_time ::
  "palma_scheduler_t option \<Rightarrow> nat \<Rightarrow> palma_val_t \<Rightarrow> palma_error_t \<times> palma_scheduler_t option" where
  "palma_scheduler_set_ready_time sched task ready_time =
     (case sched of
        None \<Rightarrow> (PALMA_ERR_NULL_PTR, None)
      | Some sc \<Rightarrow>
          if task \<ge> n_tasks sc then (PALMA_ERR_INDEX_BOUNDS, Some sc)
          else (PALMA_SUCCESS,
                Some (sc\<lparr>input := (input sc)[task := palma_add (input sc ! task) ready_time (sched_semiring sc)],
                         state := (state sc)[task := palma_add (state sc ! task) ready_time (sched_semiring sc)]\<rparr>)))"

text \<open>
  One pass of the loop body of \<open>palma_scheduler_solve\<close>: \<open>prev\<close> is the copy of the
  state, \<open>temp\<close> the product, and every \<open>state[i]\<close> is overwritten in turn.
\<close>

definition scheduler_step :: "palma_scheduler_t \<Rightarrow> palma_val_t list \<Rightarrow> palma_val_t list" where
  "scheduler_step sc prev =
     (let temp = palma_matvec (system sc) prev (sched_semiring sc) in
      fold (\<lambda>i st. st[i := palma_add (palma_add (temp ! i) (input sc ! i) (sched_semiring sc))
                                      (prev ! i) (sched_semiring sc)])
           [0..<n_tasks sc] (state sc))"

text \<open>
  The \<open>for\<close> loop, by recursion on the number of iterations left; \<open>iter\<close> counts
  the iterations done. It returns \<open>iter + 1\<close> at convergence and \<open>max_iter\<close> when the
  iterations are used up.
\<close>

fun scheduler_solve_loop :: "palma_scheduler_t \<Rightarrow> nat \<Rightarrow> nat \<Rightarrow> int \<times> palma_scheduler_t" where
  "scheduler_solve_loop sc iter 0 = (int iter, sc)"
| "scheduler_solve_loop sc iter (Suc left) =
     (let prev = take (n_tasks sc) (state sc);
          sc' = sc\<lparr>state := scheduler_step sc prev\<rparr>;
          converged = list_all (\<lambda>i. state sc' ! i = prev ! i) [0..<n_tasks sc]
      in if converged then (int iter + 1, sc')
         else scheduler_solve_loop sc' (Suc iter) left)"

definition palma_scheduler_solve ::
  "bool \<Rightarrow> palma_scheduler_t option \<Rightarrow> nat \<Rightarrow> int \<times> palma_scheduler_t option \<times> palma_error_t" where
  "palma_scheduler_solve alloc sched max_iter =
     (case sched of
        None \<Rightarrow> (- 1, None, PALMA_ERR_NULL_PTR)
      | Some sc \<Rightarrow>
          (let max_iter = (if max_iter = 0 then n_tasks sc else max_iter) in
           if \<not> alloc then (- 1, Some sc, PALMA_ERR_OUT_OF_MEMORY)
           else (let (r, sc') = scheduler_solve_loop sc 0 max_iter
                 in (r, Some sc', PALMA_SUCCESS))))"

text \<open>The boot sequence of example_scheduling.c (scenario B of the specification).\<close>

definition boot_scheduler :: "palma_scheduler_t option" where
  "boot_scheduler =
     (let sched = fst (palma_scheduler_create True 6 True);
          sched = snd (palma_scheduler_set_ready_time sched 0 0);
          sched = snd (palma_scheduler_add_constraint sched 0 1 10);
          sched = snd (palma_scheduler_add_constraint sched 1 2 20);
          sched = snd (palma_scheduler_add_constraint sched 1 3 20);
          sched = snd (palma_scheduler_add_constraint sched 1 4 20);
          sched = snd (palma_scheduler_add_constraint sched 2 5 15);
          sched = snd (palma_scheduler_add_constraint sched 3 5 25);
          sched = snd (palma_scheduler_add_constraint sched 4 5 30)
      in sched)"

text \<open>
  The system matrix that the boot sequence builds, written out (6 rows of stride 8),
  and the scheduler around it with state \<open>x\<close>.
\<close>

definition boot_system :: palma_matrix_t where
  "boot_system =
     \<lparr>data =
        [PALMA_NEG_INF, PALMA_NEG_INF, PALMA_NEG_INF, PALMA_NEG_INF, PALMA_NEG_INF, PALMA_NEG_INF, PALMA_NEG_INF, PALMA_NEG_INF,
         10, PALMA_NEG_INF, PALMA_NEG_INF, PALMA_NEG_INF, PALMA_NEG_INF, PALMA_NEG_INF, PALMA_NEG_INF, PALMA_NEG_INF,
         PALMA_NEG_INF, 20, PALMA_NEG_INF, PALMA_NEG_INF, PALMA_NEG_INF, PALMA_NEG_INF, PALMA_NEG_INF, PALMA_NEG_INF,
         PALMA_NEG_INF, 20, PALMA_NEG_INF, PALMA_NEG_INF, PALMA_NEG_INF, PALMA_NEG_INF, PALMA_NEG_INF, PALMA_NEG_INF,
         PALMA_NEG_INF, 20, PALMA_NEG_INF, PALMA_NEG_INF, PALMA_NEG_INF, PALMA_NEG_INF, PALMA_NEG_INF, PALMA_NEG_INF,
         PALMA_NEG_INF, PALMA_NEG_INF, 15, 25, 30, PALMA_NEG_INF, PALMA_NEG_INF, PALMA_NEG_INF],
      rows = 6, cols = 6, stride = 8, owns_data = True\<rparr>"

definition boot_sched :: "palma_val_t list \<Rightarrow> palma_scheduler_t" where
  "boot_sched x =
     \<lparr>system = boot_system, state = x,
      input = [0, PALMA_NEG_INF, PALMA_NEG_INF, PALMA_NEG_INF, PALMA_NEG_INF, PALMA_NEG_INF],
      n_tasks = 6, sched_semiring = PALMA_MAXPLUS, task_names = None\<rparr>"

section \<open>Sparse matrices in CSR format (palma.h, palma.c)\<close>

text \<open>
  \<open>palma_sparse_t\<close>, its fields prefixed with \<open>sp_\<close>. The lists \<open>sp_values\<close> and
  \<open>sp_col_idx\<close> hold the \<open>sp_nnz\<close> stored entries; the cells of the C arrays between
  \<open>nnz\<close> and \<open>capacity\<close> are uninitialised and are not read by the functions below.
  \<open>sp_row_ptr\<close> has \<open>sp_rows + 1\<close> cells. Writing \<open>values[idx]\<close> at the first free
  cell is appending, and the \<open>memmove\<close> by one cell followed by the store at \<open>pos\<close>
  is an insertion at \<open>pos\<close>.

  \<open>palma_idx_t\<close> is \<open>uint32_t\<close>, narrower than \<open>size_t\<close>. \<open>idx_cast\<close> is the conversion
  \<open>(palma_idx_t)x\<close> of a \<open>size_t\<close>, which keeps \<open>x\<close> modulo \<open>2^32\<close>; every store into
  \<open>col_idx\<close> and \<open>row_ptr\<close> goes through it, and the increment \<open>row_ptr[r]++\<close> wraps
  around in the same way. A cell that is read is compared with a \<open>size_t\<close> after the
  usual conversion to the wider type, that is as a natural number. The local
  variables of type \<open>palma_idx_t\<close> (\<open>start\<close>, \<open>end\<close>, \<open>pos\<close>, \<open>mid\<close>, \<open>k\<close>) stay between
  two cells of \<open>row_ptr\<close>, so their increments do not wrap.
\<close>

definition idx_cast :: "nat \<Rightarrow> nat" where
  "idx_cast x = x mod 2 ^ 32"

record palma_sparse_t =
  sp_values :: "palma_val_t list"
  sp_col_idx :: "nat list"
  sp_row_ptr :: "nat list"
  sp_rows :: nat
  sp_cols :: nat
  sp_nnz :: nat
  sp_capacity :: nat
  sp_semiring :: palma_semiring_t

definition palma_sparse_create ::
  "bool \<Rightarrow> nat \<Rightarrow> nat \<Rightarrow> nat \<Rightarrow> palma_semiring_t \<Rightarrow> palma_sparse_t option \<times> palma_error_t" where
  "palma_sparse_create alloc r c cap s =
     (if r = 0 \<or> c = 0 then (None, PALMA_ERR_INVALID_DIM)
      else if \<not> alloc then (None, PALMA_ERR_OUT_OF_MEMORY)
      else (Some \<lparr>sp_values = [], sp_col_idx = [], sp_row_ptr = replicate (r + 1) 0,
                  sp_rows = r, sp_cols = c, sp_nnz = 0,
                  sp_capacity = (if cap > 0 then cap else 16), sp_semiring = s\<rparr>,
            PALMA_SUCCESS))"

subsection \<open>\<open>palma_sparse_from_dense\<close>\<close>





subsection \<open>\<open>palma_sparse_to_dense\<close>\<close>

definition to_dense_row :: "palma_sparse_t \<Rightarrow> nat \<Rightarrow> palma_matrix_t \<Rightarrow> palma_matrix_t" where
  "to_dense_row sparse i dense =
     fold (\<lambda>k d. palma_matrix_set d i (sp_col_idx sparse ! k) (sp_values sparse ! k))
          [sp_row_ptr sparse ! i ..< sp_row_ptr sparse ! (i + 1)] dense"


subsection \<open>\<open>palma_sparse_get\<close>\<close>

text \<open>The binary search in a row, between \<open>start\<close> and \<open>stop\<close> (\<open>end\<close> in the source).\<close>

function sparse_get_search :: "palma_sparse_t \<Rightarrow> nat \<Rightarrow> nat \<Rightarrow> nat \<Rightarrow> palma_val_t" where
  "sparse_get_search sp col start stop =
     (if start < stop then
        (let mid = start + (stop - start) div 2 in
         if sp_col_idx sp ! mid = col then sp_values sp ! mid
         else if sp_col_idx sp ! mid < col then sparse_get_search sp col (mid + 1) stop
         else sparse_get_search sp col start mid)
      else palma_zero (sp_semiring sp))"
  by pat_completeness auto
termination
  by (relation "measure (\<lambda>(sp, col, start, stop). stop - start)") auto

definition palma_sparse_get :: "palma_sparse_t option \<Rightarrow> nat \<Rightarrow> nat \<Rightarrow> palma_val_t" where
  "palma_sparse_get sp row col =
     (case sp of
        None \<Rightarrow> palma_zero PALMA_MAXPLUS
      | Some S \<Rightarrow>
          if row \<ge> sp_rows S \<or> col \<ge> sp_cols S then palma_zero (sp_semiring S)
          else sparse_get_search S col (sp_row_ptr S ! row) (sp_row_ptr S ! (row + 1)))"

subsection \<open>\<open>palma_sparse_set\<close>\<close>

text \<open>
  The doubling loop of \<open>sparse_ensure_capacity\<close> does not end when the capacity is 0,
  so it is a partial function: \<open>None\<close> is the loop that runs forever. The functions
  that can write the last-error slot without always doing so take its value \<open>g\<close> and
  return the new one as the last component.
\<close>

partial_function (option) ensure_capacity_loop :: "nat \<Rightarrow> nat \<Rightarrow> nat option" where
  "ensure_capacity_loop new_cap needed =
     (if new_cap < needed then ensure_capacity_loop (new_cap * 2) needed else Some new_cap)"

definition sparse_ensure_capacity ::
  "bool \<Rightarrow> palma_error_t \<Rightarrow> palma_sparse_t \<Rightarrow> nat
     \<Rightarrow> (palma_error_t \<times> palma_sparse_t \<times> palma_error_t) option" where
  "sparse_ensure_capacity alloc g sp needed =
     (if needed \<le> sp_capacity sp then Some (PALMA_SUCCESS, sp, g)
      else case ensure_capacity_loop (sp_capacity sp * 2) needed of
             None \<Rightarrow> None
           | Some new_cap \<Rightarrow>
               if \<not> alloc then Some (PALMA_ERR_OUT_OF_MEMORY, sp, PALMA_ERR_OUT_OF_MEMORY)
               else Some (PALMA_SUCCESS, sp\<lparr>sp_capacity := new_cap\<rparr>, g))"

text \<open>The linear scan \<open>while (pos < end && col_idx[pos] < col) pos++\<close>.\<close>

function sparse_set_scan :: "nat list \<Rightarrow> nat \<Rightarrow> nat \<Rightarrow> nat \<Rightarrow> nat" where
  "sparse_set_scan cidx col stop pos =
     (if pos < stop \<and> cidx ! pos < col then sparse_set_scan cidx col stop (pos + 1) else pos)"
  by pat_completeness auto
termination
  by (relation "measure (\<lambda>(cidx, col, stop, pos). stop - pos)") auto

definition sparse_bump_row_ptr :: "nat list \<Rightarrow> nat \<Rightarrow> nat \<Rightarrow> nat list" where
  "sparse_bump_row_ptr rp row nrows =
     fold (\<lambda>r p. p[r := idx_cast (p ! r + 1)]) [row + 1 ..< nrows + 1] rp"

definition palma_sparse_set ::
  "bool \<Rightarrow> palma_error_t \<Rightarrow> palma_sparse_t option \<Rightarrow> nat \<Rightarrow> nat \<Rightarrow> palma_val_t
     \<Rightarrow> (palma_error_t \<times> palma_sparse_t option \<times> palma_error_t) option" where
  "palma_sparse_set alloc g sp row col val =
     (case sp of
        None \<Rightarrow> Some (PALMA_ERR_NULL_PTR, None, PALMA_ERR_NULL_PTR)
      | Some S \<Rightarrow>
          if row \<ge> sp_rows S \<or> col \<ge> sp_cols S
          then Some (PALMA_ERR_INDEX_BOUNDS, Some S, PALMA_ERR_INDEX_BOUNDS)
          else
            (let start = sp_row_ptr S ! row;
                 stop = sp_row_ptr S ! (row + 1);
                 pos = sparse_set_scan (sp_col_idx S) col stop start
             in if pos < stop \<and> sp_col_idx S ! pos = col
                then Some (PALMA_SUCCESS, Some (S\<lparr>sp_values := (sp_values S)[pos := val]\<rparr>), g)
                else
                  (case sparse_ensure_capacity alloc g S (sp_nnz S + 1) of
                     None \<Rightarrow> None
                   | Some (err, S1, g1) \<Rightarrow>
                       if err \<noteq> PALMA_SUCCESS then Some (err, Some S1, g1)
                       else Some (PALMA_SUCCESS,
                                  Some (S1\<lparr>sp_values := take pos (sp_values S1) @ [val] @ drop pos (sp_values S1),
                                           sp_col_idx := take pos (sp_col_idx S1) @ [idx_cast col]
                                                           @ drop pos (sp_col_idx S1),
                                           sp_row_ptr := sparse_bump_row_ptr (sp_row_ptr S1) row (sp_rows S1),
                                           sp_nnz := sp_nnz S1 + 1\<rparr>),
                                  g1))))"

subsection \<open>The CSR invariants\<close>

text \<open>
  \<open>row_cols sp r\<close> is the slice \<open>col_idx[row_ptr[r] .. row_ptr[r+1])\<close>. \<open>sparse_ok\<close>
  collects the invariants of the data model: the dimensions are positive, as
  \<open>palma_sparse_create\<close> requires, the arrays have their lengths, \<open>row_ptr\<close> starts
  at 0, ends at \<open>nnz\<close> and does not decrease, the column indices of every row ascend
  strictly and are below \<open>cols\<close>. \<open>sparse_compressed\<close> says that no stored value
  is the zero of the semiring. \<open>sparse_idx_ok\<close> says that the cells of \<open>col_idx\<close> and
  \<open>row_ptr\<close> hold values of their type \<open>palma_idx_t\<close>.
\<close>

definition row_cols :: "palma_sparse_t \<Rightarrow> nat \<Rightarrow> nat list" where
  "row_cols sp r = map (\<lambda>k. sp_col_idx sp ! k) [sp_row_ptr sp ! r ..< sp_row_ptr sp ! (r + 1)]"

definition sparse_ok :: "palma_sparse_t \<Rightarrow> bool" where
  "sparse_ok sp \<longleftrightarrow>
     0 < sp_rows sp \<and> 0 < sp_cols sp \<and> 0 < sp_capacity sp \<and> sp_nnz sp \<le> sp_capacity sp
     \<and> length (sp_values sp) = sp_nnz sp \<and> length (sp_col_idx sp) = sp_nnz sp
     \<and> length (sp_row_ptr sp) = sp_rows sp + 1
     \<and> sp_row_ptr sp ! 0 = 0 \<and> sp_row_ptr sp ! sp_rows sp = sp_nnz sp
     \<and> sorted (sp_row_ptr sp)
     \<and> list_all (\<lambda>r. sorted_wrt (<) (row_cols sp r)) [0..<sp_rows sp]
     \<and> list_all (\<lambda>c. c < sp_cols sp) (sp_col_idx sp)"



section \<open>Karp's rule as the specification words it\<close>

text \<open>
  The table of the specification: \<open>D[0][v]\<close> is the one of the semiring and \<open>D[k][v]\<close>
  the tropical sum over all \<open>u\<close> of \<open>D[k-1][u] \<otimes> A[u,v]\<close>. \<open>spec_mean\<close> is the
  quotient \<open>(D[n][v] - D[k][v]) / (n - k)\<close> on the integers, with truncating division,
  \<open>spec_min_mean\<close> its minimum over the \<open>k < n\<close> with \<open>D[k][v]\<close> not the zero, and
  \<open>spec_karp_lambda\<close> the maximum of these minima over the \<open>v\<close> with \<open>D[n][v]\<close> not the
  zero, \<open>INT32_MIN\<close> when there is none.

  \<open>karp_min_mean32\<close> and \<open>karp_lambda32\<close> are the same rule with the two differences of
  the source: every quotient is converted to 32 bits (\<open>narrow32\<close>), and a \<open>v\<close> whose
  minimum is \<open>INT32_MAX\<close> is left out of the maximum.
\<close>

definition tropical_sum :: "palma_semiring_t \<Rightarrow> palma_val_t list \<Rightarrow> palma_val_t" where
  "tropical_sum s xs = fold (\<lambda>x acc. palma_add acc x s) xs (palma_zero s)"

fun spec_karp_D :: "palma_matrix_t \<Rightarrow> nat \<Rightarrow> nat \<Rightarrow> palma_val_t" where
  "spec_karp_D A 0 v = palma_one PALMA_MAXPLUS"
| "spec_karp_D A (Suc k) v =
     tropical_sum PALMA_MAXPLUS
       (map (\<lambda>u. palma_mul (spec_karp_D A k u) (palma_matrix_get A u v) PALMA_MAXPLUS) [0..<rows A])"

definition spec_mean :: "palma_matrix_t \<Rightarrow> nat \<Rightarrow> nat \<Rightarrow> int" where
  "spec_mean A v k =
     (sint (spec_karp_D A (rows A) v) - sint (spec_karp_D A k v)) sdiv int (rows A - k)"

definition spec_min_mean :: "palma_matrix_t \<Rightarrow> nat \<Rightarrow> int" where
  "spec_min_mean A v =
     Min (set (map (spec_mean A v)
                   (filter (\<lambda>k. spec_karp_D A k v \<noteq> palma_zero PALMA_MAXPLUS) [0..<rows A])))"

definition spec_karp_lambda :: "palma_matrix_t \<Rightarrow> int" where
  "spec_karp_lambda A =
     (let vs = filter (\<lambda>v. spec_karp_D A (rows A) v \<noteq> palma_zero PALMA_MAXPLUS) [0..<rows A]
      in if vs = [] then INT32_MIN else Max (set (map (spec_min_mean A) vs)))"

definition narrow32 :: "int \<Rightarrow> int" where
  "narrow32 q = sint (word_of_int q :: palma_val_t)"

definition karp_min_mean32 :: "palma_matrix_t \<Rightarrow> nat \<Rightarrow> int" where
  "karp_min_mean32 A v =
     Min (set (map (\<lambda>k. narrow32 (spec_mean A v k))
                   (filter (\<lambda>k. spec_karp_D A k v \<noteq> palma_zero PALMA_MAXPLUS) [0..<rows A])))"

definition karp_lambda32 :: "palma_matrix_t \<Rightarrow> int" where
  "karp_lambda32 A =
     (let vs = filter (\<lambda>v. spec_karp_D A (rows A) v \<noteq> palma_zero PALMA_MAXPLUS
                          \<and> karp_min_mean32 A v \<noteq> INT32_MAX) [0..<rows A]
      in if vs = [] then INT32_MIN else Max (set (map (karp_min_mean32 A) vs)))"

definition karp_counterexample_1 :: palma_matrix_t where
  "karp_counterexample_1 =
     palma_matrix_set (the (fst (palma_matrix_create_zero True 1 1 PALMA_MAXPLUS))) 0 0 PALMA_POS_INF"

definition karp_counterexample_2 :: palma_matrix_t where
  "karp_counterexample_2 =
     (let A = the (fst (palma_matrix_create_zero True 2 2 PALMA_MAXPLUS));
          A = palma_matrix_set A 0 0 (- 2147483646);
          A = palma_matrix_set A 1 0 (- 2147483647);
          A = palma_matrix_set A 1 1 PALMA_POS_INF
      in A)"


text \<open>A 1 x 1 MaxMin matrix with the entry 5.\<close>

definition example_maxmin :: palma_matrix_t where
  "example_maxmin =
     palma_matrix_set (the (fst (palma_matrix_create_zero True 1 1 PALMA_MAXMIN))) 0 0 5"

section \<open>The two conversions as terms\<close>




definition row_vals :: "palma_sparse_t \<Rightarrow> nat \<Rightarrow> palma_val_t list" where
  "row_vals sp r = map (\<lambda>k. sp_values sp ! k) [sp_row_ptr sp ! r ..< sp_row_ptr sp ! (r + 1)]"





section \<open>Facts about the semiring kernel\<close>

lemma sint_NEG_INF: "sint PALMA_NEG_INF = - 2147483648"
  by (simp add: PALMA_NEG_INF_def INT32_MIN_def)

lemma sint_POS_INF: "sint PALMA_POS_INF = 2147483647"
  by (simp add: PALMA_POS_INF_def INT32_MAX_def)

lemma NEG_INF_neq_POS_INF: "PALMA_NEG_INF \<noteq> PALMA_POS_INF"
  by (simp add: PALMA_NEG_INF_def PALMA_POS_INF_def INT32_MIN_def INT32_MAX_def)

lemma sint32_bounds: "- 2147483648 \<le> sint (a :: palma_val_t) \<and> sint a \<le> 2147483647"
  using sint_ge [of a] sint_lt [of a] by simp

lemma sint32_of_int:
  "- 2147483648 \<le> k \<Longrightarrow> k \<le> 2147483647 \<Longrightarrow> sint (word_of_int k :: palma_val_t) = k"
  by (simp add: sint_sbintrunc' signed_take_bit_int_eq_self)

lemma sint32_add_in_range:
  fixes a b :: palma_val_t
  shows "- 2147483648 \<le> sint a + sint b \<Longrightarrow> sint a + sint b \<le> 2147483647 \<Longrightarrow>
    sint (a + b) = sint a + sint b"
  using sint32_of_int [of "sint a + sint b"] by simp

lemma NEG_INF_least: "\<not> a <s PALMA_NEG_INF"
  using sint32_bounds [of a] by (simp add: word_sless_alt sint_NEG_INF)

lemma POS_INF_greatest: "\<not> PALMA_POS_INF <s a"
  using sint32_bounds [of a] by (simp add: word_sless_alt sint_POS_INF)

lemma palma_mul_absorbs_except_minplus:
  "s \<noteq> PALMA_MINPLUS \<or> a \<noteq> PALMA_NEG_INF \<Longrightarrow> palma_mul a (palma_zero s) s = palma_zero s"
  by (cases s) (auto simp: palma_mul_plus_def NEG_INF_least POS_INF_greatest)

text \<open>
  Claim C3. Absorption \<open>palma_mul a (palma_zero s) s = palma_zero s\<close> is what the
  repository's MATH.md states for every semiring. For MinPlus the zero is \<open>POS_INF\<close>,
  but \<open>palma_mul\<close> tests its operands for \<open>NEG_INF\<close> first: the product of
  \<open>NEG_INF\<close> and the MinPlus zero is \<open>NEG_INF\<close>, not the zero.
\<close>

theorem palma_mul_minplus_zero_not_absorbing:
  "palma_mul PALMA_NEG_INF (palma_zero PALMA_MINPLUS) PALMA_MINPLUS = PALMA_NEG_INF
   \<and> palma_mul PALMA_NEG_INF (palma_zero PALMA_MINPLUS) PALMA_MINPLUS \<noteq> palma_zero PALMA_MINPLUS"
  by (simp add: palma_mul_plus_def NEG_INF_neq_POS_INF)

text \<open>
  Claim C6. For MaxPlus and MinPlus the product of two operands that are not sentinels
  is the exact integer sum clamped to the 32-bit range: above \<open>INT32_MAX\<close> it is
  \<open>POS_INF\<close>, below \<open>INT32_MIN\<close> it is \<open>NEG_INF\<close>, and it never wraps. The three
  literal products of the specification are included.
\<close>

theorem palma_mul_saturates:
  assumes "s = PALMA_MAXPLUS \<or> s = PALMA_MINPLUS"
  shows "(a \<noteq> PALMA_NEG_INF \<and> a \<noteq> PALMA_POS_INF \<and> b \<noteq> PALMA_NEG_INF \<and> b \<noteq> PALMA_POS_INF \<longrightarrow>
            palma_mul a b s =
              (if sint a + sint b > INT32_MAX then PALMA_POS_INF
               else if sint a + sint b < INT32_MIN then PALMA_NEG_INF
               else word_of_int (sint a + sint b))
          \<and> sint (palma_mul a b s) = max INT32_MIN (min INT32_MAX (sint a + sint b)))
         \<and> palma_mul PALMA_POS_INF 1 s = PALMA_POS_INF
         \<and> palma_mul (word_of_int INT32_MAX) 1 s = PALMA_POS_INF
         \<and> palma_mul (word_of_int (INT32_MIN + 1)) (- 2) s = PALMA_NEG_INF"
proof -
  have general: "palma_mul_plus a b =
              (if sint a + sint b > INT32_MAX then PALMA_POS_INF
               else if sint a + sint b < INT32_MIN then PALMA_NEG_INF
               else word_of_int (sint a + sint b))
          \<and> sint (palma_mul_plus a b) = max INT32_MIN (min INT32_MAX (sint a + sint b))"
    if "a \<noteq> PALMA_NEG_INF" "a \<noteq> PALMA_POS_INF" "b \<noteq> PALMA_NEG_INF" "b \<noteq> PALMA_POS_INF"
    using that
    by (auto simp: palma_mul_plus_def Let_def sint_POS_INF sint_NEG_INF sint32_add_in_range
        INT32_MAX_def INT32_MIN_def)
  have lit1: "palma_mul_plus PALMA_POS_INF 1 = PALMA_POS_INF"
    by (simp add: palma_mul_plus_def PALMA_NEG_INF_def PALMA_POS_INF_def INT32_MIN_def INT32_MAX_def)
  have lit2: "palma_mul_plus (word_of_int INT32_MAX) 1 = PALMA_POS_INF"
    by (simp add: palma_mul_plus_def PALMA_NEG_INF_def PALMA_POS_INF_def INT32_MIN_def INT32_MAX_def)
  have lit3: "palma_mul_plus (word_of_int (INT32_MIN + 1)) (- 2) = PALMA_NEG_INF"
    by (simp add: palma_mul_plus_def PALMA_NEG_INF_def PALMA_POS_INF_def INT32_MIN_def INT32_MAX_def)
  have plus: "palma_mul x y s = palma_mul_plus x y" for x y
    using assms by (cases s) simp_all
  show ?thesis
    unfolding plus using general lit1 lit2 lit3 by blast
qed

theorem palma_mul_saturates_witness:
  "palma_mul 2147483000 1000 PALMA_MAXPLUS = PALMA_POS_INF
   \<and> sint (palma_mul 2147483000 1000 PALMA_MAXPLUS) = 2147483647
   \<and> sint (palma_mul 20 22 PALMA_MINPLUS) = 42
   \<and> palma_mul PALMA_POS_INF 1 PALMA_MINPLUS = PALMA_POS_INF"
  using palma_mul_saturates [of PALMA_MAXPLUS 2147483000 1000]
    palma_mul_saturates [of PALMA_MINPLUS 20 22]
  by (simp add: PALMA_NEG_INF_def PALMA_POS_INF_def INT32_MIN_def INT32_MAX_def)

subsection \<open>Evaluation through \<open>sint\<close>\<close>

lemma eq_NEG_INF_iff: "a = PALMA_NEG_INF \<longleftrightarrow> sint a = - 2147483648"
  by (metis sint_NEG_INF signed_word_eqI)

lemma eq_POS_INF_iff: "a = PALMA_POS_INF \<longleftrightarrow> sint a = 2147483647"
  by (metis sint_POS_INF signed_word_eqI)

lemma palma_mul_plus_sint:
  "palma_mul_plus a b =
     (if sint a = - 2147483648 \<or> sint b = - 2147483648 then PALMA_NEG_INF
      else if sint a = 2147483647 \<or> sint b = 2147483647 then PALMA_POS_INF
      else if sint a + sint b > 2147483647 then PALMA_POS_INF
      else if sint a + sint b < - 2147483648 then PALMA_NEG_INF
      else word_of_int (sint a + sint b))"
  unfolding palma_mul_plus_def Let_def eq_NEG_INF_iff eq_POS_INF_iff INT32_MAX_def INT32_MIN_def ..

lemmas sint_eval =
  palma_mul_plus_sint word_sless_alt sint_NEG_INF sint_POS_INF eq_NEG_INF_iff eq_POS_INF_iff

section \<open>Scenario D: eigenvalue and critical nodes of two cycles\<close>

lemma example_A2_entries:
  "map (\<lambda>i. map (palma_matrix_get example_A2 i) [0..<3]) [0..<3] =
     [[PALMA_NEG_INF, 5, 4], [3, PALMA_NEG_INF, PALMA_NEG_INF], [2, PALMA_NEG_INF, PALMA_NEG_INF]]"
  by code_simp

text \<open>
  Claim C1. On the matrix of scenario D (\<open>A[1,0]=3\<close>, \<open>A[0,1]=5\<close>, \<open>A[2,0]=2\<close>,
  \<open>A[0,2]=4\<close>, MaxPlus) \<open>palma_eigenvalue\<close> returns 4, as claimed, but
  \<open>palma_critical_nodes\<close> marks all three nodes and returns 3: the 2-cycle through
  node 2 has mean 3, and the test of the source is \<open>mean \<ge> lambda - PALMA_DEFAULT_TOL\<close>,
  that is \<open>3 \<ge> 4 - 1\<close>. The example program of the repository and the header say that
  node 2 is not critical.
\<close>

theorem critical_nodes_two_cycles_marks_node_2:
  "palma_eigenvalue True (Some example_A2) PALMA_MAXPLUS = (4, PALMA_SUCCESS)
   \<and> palma_critical_nodes True (Some example_A2) (Some [0, 0, 0]) PALMA_MAXPLUS
       = (3, Some [1, 1, 1], PALMA_SUCCESS)"
  by code_simp

section \<open>Scenario B: the boot schedule\<close>

lemma boot_scheduler_eq:
  "boot_scheduler =
     Some (boot_sched [0, PALMA_NEG_INF, PALMA_NEG_INF, PALMA_NEG_INF, PALMA_NEG_INF, PALMA_NEG_INF])"
  by code_simp

lemma boot_system_entries:
  "map (\<lambda>i. map (palma_matrix_get boot_system i) [0..<6]) [0..<6] =
    [[PALMA_NEG_INF, PALMA_NEG_INF, PALMA_NEG_INF, PALMA_NEG_INF, PALMA_NEG_INF, PALMA_NEG_INF],
     [10, PALMA_NEG_INF, PALMA_NEG_INF, PALMA_NEG_INF, PALMA_NEG_INF, PALMA_NEG_INF],
     [PALMA_NEG_INF, 20, PALMA_NEG_INF, PALMA_NEG_INF, PALMA_NEG_INF, PALMA_NEG_INF],
     [PALMA_NEG_INF, 20, PALMA_NEG_INF, PALMA_NEG_INF, PALMA_NEG_INF, PALMA_NEG_INF],
     [PALMA_NEG_INF, 20, PALMA_NEG_INF, PALMA_NEG_INF, PALMA_NEG_INF, PALMA_NEG_INF],
     [PALMA_NEG_INF, PALMA_NEG_INF, 15, 25, 30, PALMA_NEG_INF]]"
  by (simp add: boot_system_def palma_matrix_get_def upt_rec)

lemmas boot_step_eval =
  boot_sched_def scheduler_step_def palma_matvec_def boot_system_def palma_matrix_get_def
  sint_eval upt_rec Let_def

lemma boot_step_1:
  "scheduler_step (boot_sched [0, PALMA_NEG_INF, PALMA_NEG_INF, PALMA_NEG_INF, PALMA_NEG_INF, PALMA_NEG_INF])
     [0, PALMA_NEG_INF, PALMA_NEG_INF, PALMA_NEG_INF, PALMA_NEG_INF, PALMA_NEG_INF]
   = [0, 10, PALMA_NEG_INF, PALMA_NEG_INF, PALMA_NEG_INF, PALMA_NEG_INF]"
  by (simp add: boot_step_eval)

lemma boot_step_2:
  "scheduler_step (boot_sched [0, 10, PALMA_NEG_INF, PALMA_NEG_INF, PALMA_NEG_INF, PALMA_NEG_INF])
     [0, 10, PALMA_NEG_INF, PALMA_NEG_INF, PALMA_NEG_INF, PALMA_NEG_INF]
   = [0, 10, 30, 30, 30, PALMA_NEG_INF]"
  by (simp add: boot_step_eval)

lemma boot_step_3:
  "scheduler_step (boot_sched [0, 10, 30, 30, 30, PALMA_NEG_INF]) [0, 10, 30, 30, 30, PALMA_NEG_INF]
   = [0, 10, 30, 30, 30, 60]"
  by (simp add: boot_step_eval)

lemma boot_step_4:
  "scheduler_step (boot_sched [0, 10, 30, 30, 30, 60]) [0, 10, 30, 30, 30, 60]
   = [0, 10, 30, 30, 30, 60]"
  by (simp add: boot_step_eval)

lemma boot_sched_simps:
  "(boot_sched x)\<lparr>state := y\<rparr> = boot_sched y" "state (boot_sched x) = x" "n_tasks (boot_sched x) = 6"
  by (simp_all add: boot_sched_def)

lemma boot_solve_loop:
  "scheduler_solve_loop
     (boot_sched [0, PALMA_NEG_INF, PALMA_NEG_INF, PALMA_NEG_INF, PALMA_NEG_INF, PALMA_NEG_INF])
     0 (Suc (Suc (Suc (Suc left))))
   = (4, boot_sched [0, 10, 30, 30, 30, 60])"
  by (simp add: boot_sched_simps boot_step_1 boot_step_2 boot_step_3 boot_step_4 Let_def upt_rec
      eq_NEG_INF_iff)

text \<open>
  Claim C5. The scheduler built as in example_scheduling.c has the system matrix of the
  claim (\<open>boot_system_entries\<close> lists its entries). \<open>palma_scheduler_solve\<close> with
  \<open>max_iter = 0\<close>, hence with the default of \<open>n_tasks = 6\<close> iterations, returns 4: the
  fourth iteration finds the state equal to its copy \<open>prev\<close>, and the state it leaves
  is \<open>[0, 10, 30, 30, 30, 60]\<close>.
\<close>

theorem boot_schedule_solve:
  "palma_scheduler_solve True boot_scheduler 0
     = (4, Some (boot_sched [0, 10, 30, 30, 30, 60]), PALMA_SUCCESS)
   \<and> state (boot_sched [0, 10, 30, 30, 30, 60]) = [0, 10, 30, 30, 30, 60]
   \<and> map_option system boot_scheduler = Some boot_system
   \<and> map_option input boot_scheduler
       = Some [0, PALMA_NEG_INF, PALMA_NEG_INF, PALMA_NEG_INF, PALMA_NEG_INF, PALMA_NEG_INF]
   \<and> map (\<lambda>i. map (palma_matrix_get boot_system i) [0..<6]) [0..<6] =
      [[PALMA_NEG_INF, PALMA_NEG_INF, PALMA_NEG_INF, PALMA_NEG_INF, PALMA_NEG_INF, PALMA_NEG_INF],
       [10, PALMA_NEG_INF, PALMA_NEG_INF, PALMA_NEG_INF, PALMA_NEG_INF, PALMA_NEG_INF],
       [PALMA_NEG_INF, 20, PALMA_NEG_INF, PALMA_NEG_INF, PALMA_NEG_INF, PALMA_NEG_INF],
       [PALMA_NEG_INF, 20, PALMA_NEG_INF, PALMA_NEG_INF, PALMA_NEG_INF, PALMA_NEG_INF],
       [PALMA_NEG_INF, 20, PALMA_NEG_INF, PALMA_NEG_INF, PALMA_NEG_INF, PALMA_NEG_INF],
       [PALMA_NEG_INF, PALMA_NEG_INF, 15, 25, 30, PALMA_NEG_INF]]"
proof -
  have "palma_scheduler_solve True boot_scheduler 0
          = (4, Some (boot_sched [0, 10, 30, 30, 30, 60]), PALMA_SUCCESS)"
    using boot_solve_loop [of 2]
    by (simp add: palma_scheduler_solve_def boot_scheduler_eq boot_sched_simps eval_nat_numeral)
  moreover have "map_option system boot_scheduler = Some boot_system"
    by (simp add: boot_scheduler_eq boot_sched_def)
  moreover have "map_option input boot_scheduler
       = Some [0, PALMA_NEG_INF, PALMA_NEG_INF, PALMA_NEG_INF, PALMA_NEG_INF, PALMA_NEG_INF]"
    by (simp add: boot_scheduler_eq boot_sched_def)
  ultimately show ?thesis
    using boot_system_entries by (simp add: boot_sched_simps)
qed

section \<open>Sparse access out of range\<close>

text \<open>
  Claim C10. For a row or column index outside the matrix \<open>palma_sparse_get\<close> returns
  the zero of the matrix's semiring, and for the null pointer the MaxPlus zero
  \<open>NEG_INF\<close>; it has no error result and does not touch the last-error slot.
  \<open>palma_sparse_set\<close> with the same indices returns \<open>PALMA_ERR_INDEX_BOUNDS\<close>, stores
  it in the slot and leaves the matrix as it was.
\<close>

theorem sparse_get_total_set_checks_bounds:
  "(row \<ge> sp_rows S \<or> col \<ge> sp_cols S \<longrightarrow>
      palma_sparse_get (Some S) row col = palma_zero (sp_semiring S)
      \<and> palma_sparse_set alloc g (Some S) row col val
          = Some (PALMA_ERR_INDEX_BOUNDS, Some S, PALMA_ERR_INDEX_BOUNDS))
   \<and> palma_sparse_get None row col = PALMA_NEG_INF"
  by (simp add: palma_sparse_get_def palma_sparse_set_def)

theorem sparse_get_total_set_checks_bounds_witness:
  "palma_sparse_get (fst (palma_sparse_create True 2 3 0 PALMA_MINPLUS)) 2 0 = PALMA_POS_INF
   \<and> palma_sparse_get (fst (palma_sparse_create True 2 3 0 PALMA_MINPLUS)) 1 3 = PALMA_POS_INF
   \<and> palma_sparse_set True PALMA_SUCCESS (fst (palma_sparse_create True 2 3 0 PALMA_MINPLUS)) 2 0 7
       = Some (PALMA_ERR_INDEX_BOUNDS, fst (palma_sparse_create True 2 3 0 PALMA_MINPLUS),
               PALMA_ERR_INDEX_BOUNDS)"
  using sparse_get_total_set_checks_bounds
          [where row = 2 and col = 0 and alloc = True and g = PALMA_SUCCESS and val = 7
             and S = "the (fst (palma_sparse_create True 2 3 0 PALMA_MINPLUS))"]
        sparse_get_total_set_checks_bounds
          [where row = 1 and col = 3 and alloc = True and g = PALMA_SUCCESS and val = 7
             and S = "the (fst (palma_sparse_create True 2 3 0 PALMA_MINPLUS))"]
  by (simp add: palma_sparse_create_def)

section \<open>\<open>palma_sparse_set\<close> keeps the CSR invariants\<close>

declare sparse_set_scan.simps [simp del]
declare sparse_get_search.simps [simp del]

lemma sparse_set_scan_bounds:
  "start \<le> stop \<Longrightarrow> start \<le> sparse_set_scan cidx col stop start \<and> sparse_set_scan cidx col stop start \<le> stop"
proof (induction cidx col stop start rule: sparse_set_scan.induct)
  case (1 cidx col stop pos)
  then show ?case
    by (subst (1 2) sparse_set_scan.simps) auto
qed

lemma sparse_set_scan_below:
  "start \<le> k \<Longrightarrow> k < sparse_set_scan cidx col stop start \<Longrightarrow> cidx ! k < col"
proof (induction cidx col stop start rule: sparse_set_scan.induct)
  case (1 cidx col stop pos)
  show ?case
  proof (cases "pos < stop \<and> cidx ! pos < col")
    case True
    with "1.prems" have "k < sparse_set_scan cidx col stop (pos + 1)"
      by (subst (asm) sparse_set_scan.simps) simp
    with True "1.IH" "1.prems"(1) show ?thesis
      by (cases "k = pos") auto
  next
    case False
    with "1.prems" show ?thesis
      by (subst (asm) sparse_set_scan.simps) auto
  qed
qed

lemma sparse_set_scan_stops:
  "start \<le> stop \<Longrightarrow> sparse_set_scan cidx col stop start < stop \<Longrightarrow>
     col \<le> cidx ! sparse_set_scan cidx col stop start"
proof (induction cidx col stop start rule: sparse_set_scan.induct)
  case (1 cidx col stop pos)
  show ?case
  proof (cases "pos < stop \<and> cidx ! pos < col")
    case True
    then have eq: "sparse_set_scan cidx col stop pos = sparse_set_scan cidx col stop (pos + 1)"
      by (subst sparse_set_scan.simps) simp
    with True "1.IH" "1.prems" show ?thesis by auto
  next
    case False
    then have "sparse_set_scan cidx col stop pos = pos"
      by (subst sparse_set_scan.simps) auto
    with False "1.prems" show ?thesis by auto
  qed
qed

lemma bump_fold_length:
  "length (fold (\<lambda>r p. p[r := f p r]) rs rp) = length rp"
  by (induction rs arbitrary: rp) auto

lemma idx_cast_id: "x < 2 ^ 32 \<Longrightarrow> idx_cast x = x"
  by (simp add: idx_cast_def)


lemma bump_fold_nth:
  "fold (\<lambda>r p. p[r := f (p ! r)]) [a..<b] rp ! i =
     (if a \<le> i \<and> i < b \<and> i < length rp then f (rp ! i) else rp ! i)"
proof (induction b arbitrary: i)
  case 0
  then show ?case by simp
next
  case (Suc b)
  let ?F = "fold (\<lambda>r p. p[r := f (p ! r)]) [a..<b] rp"
  show ?case
  proof (cases "a \<le> b")
    case True
    then have "fold (\<lambda>r p. p[r := f (p ! r)]) [a..<Suc b] rp = ?F[b := f (?F ! b)]"
      by simp
    moreover have "length ?F = length rp"
      by (rule bump_fold_length)
    ultimately show ?thesis
      using True Suc.IH [of i] Suc.IH [of b]
      by (cases "i = b") (auto simp: nth_list_update list_update_beyond simp del: fold_simps upt_Suc)
  next
    case False
    then show ?thesis by auto
  qed
qed

lemma sparse_bump_row_ptr_length [simp]:
  "length (sparse_bump_row_ptr rp row n) = length rp"
  unfolding sparse_bump_row_ptr_def by (rule bump_fold_length)

lemma sparse_bump_row_ptr_cast_nth:
  "sparse_bump_row_ptr rp row n ! i =
     (if row < i \<and> i \<le> n \<and> i < length rp then idx_cast (rp ! i + 1) else rp ! i)"
  unfolding sparse_bump_row_ptr_def bump_fold_nth [of "\<lambda>x. idx_cast (x + 1)"] by auto

text \<open>The increment does not wrap around in a cell that holds less than \<open>2^32 - 1\<close>.\<close>

lemma sparse_bump_row_ptr_nth:
  assumes "rp ! i + 1 < 2 ^ 32"
  shows "sparse_bump_row_ptr rp row n ! i =
     (if row < i \<and> i \<le> n \<and> i < length rp then rp ! i + 1 else rp ! i)"
  unfolding sparse_bump_row_ptr_cast_nth using idx_cast_id [OF assms] by simp

lemma ensure_capacity_loop_result:
  "ensure_capacity_loop c needed = Some c' \<Longrightarrow> needed \<le> c'"
  by (rule ensure_capacity_loop.raw_induct [where P = "\<lambda>c needed c'. needed \<le> c'"])
    (auto split: if_splits)


lemma ensure_capacity_loop_returns:
  "0 < c \<Longrightarrow> \<exists>c'. ensure_capacity_loop c needed = Some c'"
proof (induction "needed - c" arbitrary: c rule: less_induct)
  case less
  show ?case
  proof (cases "c < needed")
    case True
    with less.prems have "needed - c * 2 < needed - c" by simp
    from less.hyps [OF this] less.prems obtain c' where "ensure_capacity_loop (c * 2) needed = Some c'"
      by auto
    with True show ?thesis by (subst ensure_capacity_loop.simps) simp
  next
    case False
    then show ?thesis by (subst ensure_capacity_loop.simps) simp
  qed
qed

lemma row_cols_sorted_iff:
  "sorted_wrt (<) (row_cols sp r) \<longleftrightarrow>
     (\<forall>i j. sp_row_ptr sp ! r \<le> i \<and> i < j \<and> j < sp_row_ptr sp ! (r + 1)
        \<longrightarrow> sp_col_idx sp ! i < sp_col_idx sp ! j)"
proof
  assume s: "sorted_wrt (<) (row_cols sp r)"
  show "\<forall>i j. sp_row_ptr sp ! r \<le> i \<and> i < j \<and> j < sp_row_ptr sp ! (r + 1)
        \<longrightarrow> sp_col_idx sp ! i < sp_col_idx sp ! j"
  proof (intro allI impI)
    fix i j
    assume h: "sp_row_ptr sp ! r \<le> i \<and> i < j \<and> j < sp_row_ptr sp ! (r + 1)"
    let ?a = "sp_row_ptr sp ! r"
    from h have "i - ?a < j - ?a" "j - ?a < length (row_cols sp r)"
      by (auto simp: row_cols_def)
    with s have "row_cols sp r ! (i - ?a) < row_cols sp r ! (j - ?a)"
      by (simp add: sorted_wrt_iff_nth_less)
    moreover from h have "i - ?a < length [?a..<sp_row_ptr sp ! (r + 1)]"
      "j - ?a < length [?a..<sp_row_ptr sp ! (r + 1)]" "?a + (i - ?a) = i" "?a + (j - ?a) = j"
      by auto
    then have "row_cols sp r ! (i - ?a) = sp_col_idx sp ! i"
      "row_cols sp r ! (j - ?a) = sp_col_idx sp ! j"
      unfolding row_cols_def by (simp_all only: nth_map nth_upt length_upt)
    ultimately show "sp_col_idx sp ! i < sp_col_idx sp ! j"
      by simp
  qed
next
  assume "\<forall>i j. sp_row_ptr sp ! r \<le> i \<and> i < j \<and> j < sp_row_ptr sp ! (r + 1)
        \<longrightarrow> sp_col_idx sp ! i < sp_col_idx sp ! j"
  then show "sorted_wrt (<) (row_cols sp r)"
    by (auto simp: sorted_wrt_iff_nth_less row_cols_def)
qed

lemma insert_nth:
  "pos \<le> length xs \<Longrightarrow>
     (take pos xs @ c # drop pos xs) ! k =
       (if k < pos then xs ! k else if k = pos then c else xs ! (k - 1))"
  by (auto simp: nth_append min_def)


lemma insert_keeps_rows_sorted:
  fixes rp ci :: "nat list"
  assumes mono: "\<And>i j. i \<le> j \<Longrightarrow> j \<le> nrows \<Longrightarrow> rp ! i \<le> rp ! j"
    and srt: "\<And>r i j. r < nrows \<Longrightarrow> rp ! r \<le> i \<Longrightarrow> i < j \<Longrightarrow> j < rp ! (r + 1) \<Longrightarrow> ci ! i < ci ! j"
    and row: "row < nrows"
    and len: "length rp = nrows + 1" "rp ! nrows = length ci"
    and small: "rp ! nrows + 1 < 2 ^ 32"
    and pos: "rp ! row \<le> pos" "pos \<le> rp ! (row + 1)"
    and below: "\<And>k. rp ! row \<le> k \<Longrightarrow> k < pos \<Longrightarrow> ci ! k < col"
    and above: "pos < rp ! (row + 1) \<Longrightarrow> col < ci ! pos"
    and r: "r < nrows"
    and ij: "sparse_bump_row_ptr rp row nrows ! r \<le> i" "i < j"
      "j < sparse_bump_row_ptr rp row nrows ! (r + 1)"
  shows "(take pos ci @ [col] @ drop pos ci) ! i < (take pos ci @ [col] @ drop pos ci) ! j"
proof -
  let ?ci' = "take pos ci @ [col] @ drop pos ci"
  have bump: "sparse_bump_row_ptr rp row nrows ! k =
      (if row < k \<and> k \<le> nrows \<and> k < length rp then rp ! k + 1 else rp ! k)"
    if "k \<le> nrows" for k
    using mono [OF that order_refl] small by (intro sparse_bump_row_ptr_nth) simp
  have stop_le: "rp ! (row + 1) \<le> length ci"
    using mono [of "row + 1" nrows] row len by simp
  with pos have pos_le: "pos \<le> length ci" by simp
  note nth' = insert_nth [OF pos_le, of col]
  consider (before) "r < row" | (at) "r = row" | (after) "row < r" by linarith
  then show ?thesis
  proof cases
    case before
    with r len have b: "sparse_bump_row_ptr rp row nrows ! r = rp ! r"
      "sparse_bump_row_ptr rp row nrows ! (r + 1) = rp ! (r + 1)"
      by (simp_all add: bump)
    from before mono [of "r + 1" row] row have "rp ! (r + 1) \<le> rp ! row" by simp
    with ij b pos have "i < pos" "j < pos" by simp_all
    with srt [OF r, of i j] ij b show ?thesis by (simp add: nth')
  next
    case at
    with r len have b: "sparse_bump_row_ptr rp row nrows ! r = rp ! row"
      "sparse_bump_row_ptr rp row nrows ! (r + 1) = rp ! (row + 1) + 1"
      by (simp_all add: bump)
    have orig: "ci ! a < ci ! b" if "rp ! row \<le> a" "a < b" "b < rp ! (row + 1)" for a b
      using srt [OF row, of a b] that by simp
    have orig_le: "ci ! a \<le> ci ! b" if "rp ! row \<le> a" "a \<le> b" "b < rp ! (row + 1)" for a b
      using orig [of a b] that by (cases "a = b") auto
    consider (ll) "j < pos" | (lm) "i < pos" "j = pos" | (lr) "i < pos" "pos < j"
      | (mr) "i = pos" "pos < j" | (rr) "pos < i"
      using ij by linarith
    then show ?thesis
    proof cases
      case ll
      with ij b pos orig [of i j] show ?thesis by (simp add: nth')
    next
      case lm
      with ij b below [of i] show ?thesis by (simp add: nth')
    next
      case lr
      with ij b have "pos \<le> j - 1" "j - 1 < rp ! (row + 1)" by simp_all
      with above orig_le [of pos "j - 1"] pos have "col < ci ! (j - 1)" by simp
      moreover from lr ij b below [of i] have "ci ! i < col" by simp
      ultimately show ?thesis using lr by (simp add: nth')
    next
      case mr
      with ij b have "pos \<le> j - 1" "j - 1 < rp ! (row + 1)" by simp_all
      with above orig_le [of pos "j - 1"] pos have "col < ci ! (j - 1)" by simp
      then show ?thesis using mr by (simp add: nth')
    next
      case rr
      with ij b pos orig [of "i - 1" "j - 1"] show ?thesis by (simp add: nth')
    qed
  next
    case after
    with r len have b: "sparse_bump_row_ptr rp row nrows ! r = rp ! r + 1"
      "sparse_bump_row_ptr rp row nrows ! (r + 1) = rp ! (r + 1) + 1"
      by (simp_all add: bump)
    from after mono [of "row + 1" r] r have "rp ! (row + 1) \<le> rp ! r" by simp
    with ij b pos have "pos < i" "pos < j" by simp_all
    with srt [OF r, of "i - 1" "j - 1"] ij b show ?thesis by (simp add: nth')
  qed
qed

lemma sparse_ok_nth:
  "sparse_ok sp \<longleftrightarrow>
     0 < sp_rows sp \<and> 0 < sp_cols sp \<and> 0 < sp_capacity sp \<and> sp_nnz sp \<le> sp_capacity sp
     \<and> length (sp_values sp) = sp_nnz sp \<and> length (sp_col_idx sp) = sp_nnz sp
     \<and> length (sp_row_ptr sp) = sp_rows sp + 1
     \<and> sp_row_ptr sp ! 0 = 0 \<and> sp_row_ptr sp ! sp_rows sp = sp_nnz sp
     \<and> (\<forall>i j. i \<le> j \<and> j \<le> sp_rows sp \<longrightarrow> sp_row_ptr sp ! i \<le> sp_row_ptr sp ! j)
     \<and> (\<forall>r i j. r < sp_rows sp \<and> sp_row_ptr sp ! r \<le> i \<and> i < j \<and> j < sp_row_ptr sp ! (r + 1)
            \<longrightarrow> sp_col_idx sp ! i < sp_col_idx sp ! j)
     \<and> (\<forall>c \<in> set (sp_col_idx sp). c < sp_cols sp)"
proof -
  have "length (sp_row_ptr sp) = sp_rows sp + 1 \<Longrightarrow>
      sorted (sp_row_ptr sp) \<longleftrightarrow>
      (\<forall>i j. i \<le> j \<and> j \<le> sp_rows sp \<longrightarrow> sp_row_ptr sp ! i \<le> sp_row_ptr sp ! j)"
    by (auto simp: sorted_iff_nth_mono)
  then show ?thesis
    unfolding sparse_ok_def list_all_iff row_cols_sorted_iff by auto
qed


lemma sparse_ensure_capacity_success:
  assumes "sparse_ensure_capacity alloc g S needed = Some (PALMA_SUCCESS, S1, g1)"
  shows "\<exists>c. S1 = S\<lparr>sp_capacity := c\<rparr> \<and> needed \<le> c \<and> g1 = g"
proof (cases "needed \<le> sp_capacity S")
  case True
  with assms have "S1 = S\<lparr>sp_capacity := sp_capacity S\<rparr> \<and> g1 = g"
    by (simp add: sparse_ensure_capacity_def)
  with True show ?thesis by blast
next
  case False
  with assms obtain c where c: "ensure_capacity_loop (sp_capacity S * 2) needed = Some c"
    and "S1 = S\<lparr>sp_capacity := c\<rparr>" "g1 = g"
    by (auto simp: sparse_ensure_capacity_def split: option.splits if_splits)
  with ensure_capacity_loop_result [OF c] show ?thesis by blast
qed

lemma sparse_set_cases:
  assumes "palma_sparse_set alloc g (Some S) row col val = Some (PALMA_SUCCESS, Some S', g')"
  defines "pos \<equiv> sparse_set_scan (sp_col_idx S) col (sp_row_ptr S ! (row + 1)) (sp_row_ptr S ! row)"
  shows "row < sp_rows S \<and> col < sp_cols S \<and> g' = g \<and>
     ((pos < sp_row_ptr S ! (row + 1) \<and> sp_col_idx S ! pos = col
         \<and> S' = S\<lparr>sp_values := (sp_values S)[pos := val]\<rparr>)
      \<or> (\<not> (pos < sp_row_ptr S ! (row + 1) \<and> sp_col_idx S ! pos = col)
         \<and> (\<exists>c. sp_nnz S + 1 \<le> c \<and>
               S' = S\<lparr>sp_capacity := c,
                       sp_values := take pos (sp_values S) @ [val] @ drop pos (sp_values S),
                       sp_col_idx := take pos (sp_col_idx S) @ [idx_cast col] @ drop pos (sp_col_idx S),
                       sp_row_ptr := sparse_bump_row_ptr (sp_row_ptr S) row (sp_rows S),
                       sp_nnz := sp_nnz S + 1\<rparr>)))"
proof -
  from assms(1) have in_range: "row < sp_rows S" "col < sp_cols S"
    by (auto simp: palma_sparse_set_def split: if_splits)
  show ?thesis
  proof (cases "pos < sp_row_ptr S ! (row + 1) \<and> sp_col_idx S ! pos = col")
    case True
    with assms(1) in_range show ?thesis
      by (auto simp: palma_sparse_set_def Let_def pos_def)
  next
    case False
    with assms(1) in_range obtain err S1 g1 where
      ens: "sparse_ensure_capacity alloc g S (sp_nnz S + 1) = Some (err, S1, g1)"
      by (auto simp: palma_sparse_set_def Let_def pos_def split: option.splits)
    with assms(1) in_range False have err: "err = PALMA_SUCCESS"
      by (auto simp: palma_sparse_set_def Let_def pos_def split: if_splits)
    from sparse_ensure_capacity_success [OF ens [unfolded err]]
    obtain c where c: "S1 = S\<lparr>sp_capacity := c\<rparr>" "sp_nnz S + 1 \<le> c" "g1 = g" by blast
    with assms(1) in_range False ens err show ?thesis
      by (auto simp: palma_sparse_set_def Let_def pos_def)
  qed
qed

text \<open>
  A call of \<open>palma_sparse_set\<close> on a matrix that satisfies the invariants returns:
  the capacity is positive, so the doubling loop ends.
\<close>

lemma sparse_set_returns:
  assumes "sparse_ok S"
  shows "\<exists>res. palma_sparse_set alloc g (Some S) row col val = Some res"
proof -
  from assms have "0 < sp_capacity S * 2"
    by (simp add: sparse_ok_def)
  from ensure_capacity_loop_returns [OF this, of "sp_nnz S + 1"]
  obtain c where "ensure_capacity_loop (sp_capacity S * 2) (sp_nnz S + 1) = Some c" ..
  then show ?thesis
    by (auto simp: palma_sparse_set_def sparse_ensure_capacity_def Let_def split: option.splits)
qed

text \<open>
  Claim C8. If \<open>palma_sparse_set\<close> returns \<open>PALMA_SUCCESS\<close> on a matrix that satisfies
  the CSR invariants, for a column index below \<open>2^32\<close> and a matrix with fewer than
  \<open>2^32 - 1\<close> stored entries, whether it overwrote a stored entry or inserted a new
  one, and whatever the value (the zero of the semiring included), then in the matrix
  it leaves \<open>row_ptr[0] = 0\<close>, \<open>row_ptr[rows] = nnz\<close>, the column indices of every row
  ascend strictly, and all the invariants of \<open>sparse_ok\<close> hold again. The two bounds
  say that the stored column index and the incremented row pointers fit
  \<open>palma_idx_t\<close>.
\<close>

theorem sparse_set_preserves_csr:
  assumes ok: "sparse_ok S"
    and set: "palma_sparse_set alloc g (Some S) row col val = Some (PALMA_SUCCESS, Some S', g')"
    and col32: "col < 2 ^ 32"
    and nnz32: "sp_nnz S + 1 < 2 ^ 32"
  shows "sp_row_ptr S' ! 0 = 0
     \<and> sp_row_ptr S' ! sp_rows S' = sp_nnz S'
     \<and> (\<forall>r < sp_rows S'. sorted_wrt (<) (row_cols S' r))
     \<and> sparse_ok S'"
proof -
  define rp ci nrows where "rp = sp_row_ptr S" and "ci = sp_col_idx S" and "nrows = sp_rows S"
  define pos where "pos = sparse_set_scan ci col (rp ! (row + 1)) (rp ! row)"
  note defs = rp_def ci_def nrows_def pos_def
  from sparse_set_cases [OF set] have row: "row < nrows" and col: "col < sp_cols S"
    by (simp_all add: defs)
  from ok have mono: "i \<le> j \<Longrightarrow> j \<le> nrows \<Longrightarrow> rp ! i \<le> rp ! j" for i j
    unfolding sparse_ok_nth defs by blast
  from ok have srt: "r < nrows \<Longrightarrow> rp ! r \<le> i \<Longrightarrow> i < j \<Longrightarrow> j < rp ! (r + 1) \<Longrightarrow> ci ! i < ci ! j" for r i j
    unfolding sparse_ok_nth defs by blast
  from ok have len: "length rp = nrows + 1" "rp ! nrows = length ci" "rp ! 0 = 0"
    "length ci = sp_nnz S" "length (sp_values S) = sp_nnz S"
    unfolding sparse_ok_nth defs by simp_all
  have ok': "sparse_ok S'"
  proof -
    from sparse_set_cases [OF set]
    consider (update) "S' = S\<lparr>sp_values := (sp_values S)[pos := val]\<rparr>"
      | (insert) c where "\<not> (pos < rp ! (row + 1) \<and> ci ! pos = col)" "sp_nnz S + 1 \<le> c"
          "S' = S\<lparr>sp_capacity := c,
                       sp_values := take pos (sp_values S) @ [val] @ drop pos (sp_values S),
                       sp_col_idx := take pos ci @ [col] @ drop pos ci,
                       sp_row_ptr := sparse_bump_row_ptr rp row nrows,
                       sp_nnz := sp_nnz S + 1\<rparr>"
      unfolding defs idx_cast_id [OF col32] by blast
    then show ?thesis
    proof cases
      case update
      with ok show ?thesis
        by (simp add: sparse_ok_def row_cols_def)
    next
      case insert
      have se: "rp ! row \<le> rp ! (row + 1)"
        using mono [of row "row + 1"] row by simp
      have small: "rp ! nrows + 1 < 2 ^ 32"
        using len nnz32 by simp
      have bump: "sparse_bump_row_ptr rp row nrows ! k =
          (if row < k \<and> k \<le> nrows \<and> k < length rp then rp ! k + 1 else rp ! k)"
        if "k \<le> nrows" for k
        using mono [OF that order_refl] small by (intro sparse_bump_row_ptr_nth) simp
      from sparse_set_scan_bounds [OF se, of ci col]
      have pos: "rp ! row \<le> pos" "pos \<le> rp ! (row + 1)"
        by (simp_all add: pos_def)
      have below: "rp ! row \<le> k \<Longrightarrow> k < pos \<Longrightarrow> ci ! k < col" for k
        unfolding pos_def by (rule sparse_set_scan_below)
      have above: "col < ci ! pos" if "pos < rp ! (row + 1)"
        using sparse_set_scan_stops [OF se, of ci col] that insert(1)
        by (auto simp: pos_def)
      have stop_le: "rp ! (row + 1) \<le> length ci"
        using mono [of "row + 1" nrows] row len by simp
      with pos have pos_le: "pos \<le> length ci" by simp
      have sorted': "(take pos ci @ [col] @ drop pos ci) ! i < (take pos ci @ [col] @ drop pos ci) ! j"
        if "r < nrows" "sparse_bump_row_ptr rp row nrows ! r \<le> i" "i < j"
          "j < sparse_bump_row_ptr rp row nrows ! (r + 1)" for r i j
        using insert_keeps_rows_sorted [of nrows rp ci row pos col r i j]
          mono srt row len(1,2) small pos below above that by blast
      have mono': "sparse_bump_row_ptr rp row nrows ! i \<le> sparse_bump_row_ptr rp row nrows ! j"
        if "i \<le> j" "j \<le> nrows" for i j
        using mono [OF that] that len(1) by (auto simp: bump)
      have cols': "\<forall>c \<in> set (take pos ci @ [col] @ drop pos ci). c < sp_cols S"
      proof -
        have "set (take pos ci @ [col] @ drop pos ci) = insert col (set ci)"
          using set_append [of "take pos ci" "drop pos ci"] by auto
        with ok col show ?thesis
          unfolding sparse_ok_nth defs by auto
      qed
      from ok have base: "0 < sp_rows S" "0 < sp_cols S"
        unfolding sparse_ok_nth by simp_all
      have rp0': "sparse_bump_row_ptr rp row nrows ! 0 = 0"
        using len by (simp add: bump)
      have rpn': "sparse_bump_row_ptr rp row nrows ! nrows = sp_nnz S + 1"
        using len row by (simp add: bump)
      show ?thesis
        unfolding sparse_ok_nth
        using insert(2,3) base len pos_le row sorted' mono' cols' rp0' rpn'
        by (auto simp: nrows_def [symmetric])
    qed
  qed
  then show ?thesis
    unfolding sparse_ok_nth row_cols_sorted_iff by auto
qed

theorem sparse_set_preserves_csr_witness:
  "sparse_ok \<lparr>sp_values = [7, 9, 4], sp_col_idx = [0, 3, 2], sp_row_ptr = [0, 2, 3],
              sp_rows = 2, sp_cols = 5, sp_nnz = 3, sp_capacity = 3, sp_semiring = PALMA_MAXPLUS\<rparr>
   \<and> palma_sparse_set True PALMA_SUCCESS
        (Some \<lparr>sp_values = [7, 9, 4], sp_col_idx = [0, 3, 2], sp_row_ptr = [0, 2, 3],
               sp_rows = 2, sp_cols = 5, sp_nnz = 3, sp_capacity = 3, sp_semiring = PALMA_MAXPLUS\<rparr>)
        0 2 PALMA_NEG_INF
      = Some (PALMA_SUCCESS,
              Some \<lparr>sp_values = [7, PALMA_NEG_INF, 9, 4], sp_col_idx = [0, 2, 3, 2],
                     sp_row_ptr = [0, 3, 4], sp_rows = 2, sp_cols = 5, sp_nnz = 4,
                     sp_capacity = 6, sp_semiring = PALMA_MAXPLUS\<rparr>,
              PALMA_SUCCESS)
   \<and> sparse_ok \<lparr>sp_values = [7, PALMA_NEG_INF, 9, 4], sp_col_idx = [0, 2, 3, 2],
                 sp_row_ptr = [0, 3, 4], sp_rows = 2, sp_cols = 5, sp_nnz = 4,
                 sp_capacity = 6, sp_semiring = PALMA_MAXPLUS\<rparr>"
proof -
  let ?S = "\<lparr>sp_values = [7, 9, 4], sp_col_idx = [0, 3, 2], sp_row_ptr = [0, 2, 3],
              sp_rows = 2, sp_cols = 5, sp_nnz = 3, sp_capacity = 3, sp_semiring = PALMA_MAXPLUS\<rparr>"
  let ?S' = "\<lparr>sp_values = [7, PALMA_NEG_INF, 9, 4], sp_col_idx = [0, 2, 3, 2],
                     sp_row_ptr = [0, 3, 4], sp_rows = 2, sp_cols = 5, sp_nnz = 4,
                     sp_capacity = 6, sp_semiring = PALMA_MAXPLUS\<rparr>"
  have ok: "sparse_ok ?S"
    by code_simp
  have grow: "ensure_capacity_loop 6 4 = Some 6"
    by (subst ensure_capacity_loop.simps) simp
  have scan: "sparse_set_scan [0, 3, 2] 2 2 0 = 1"
    by code_simp
  have bump: "sparse_bump_row_ptr [0, 2, 3] 0 2 = [0, 3, 4]"
    by (simp add: sparse_bump_row_ptr_def idx_cast_def upt_rec)
  have cast: "idx_cast 2 = 2"
    by (simp add: idx_cast_def)
  have set: "palma_sparse_set True PALMA_SUCCESS (Some ?S) 0 2 PALMA_NEG_INF
               = Some (PALMA_SUCCESS, Some ?S', PALMA_SUCCESS)"
    by (simp add: palma_sparse_set_def sparse_ensure_capacity_def grow scan bump cast)
  have fit: "(2 :: nat) < 2 ^ 32" "sp_nnz ?S + 1 < 2 ^ 32"
    by simp_all
  from sparse_set_preserves_csr [OF ok set fit] ok set show ?thesis
    by blast
qed

text \<open>
  Claim C8 without the bounds fails. \<open>palma_sparse_create\<close> accepts 4294967297
  columns. A first \<open>palma_sparse_set\<close> at column 4294967296 stores the column index
  \<open>(palma_idx_t)4294967296 = 0\<close>. A second call at the same position compares the
  stored 0 with 4294967296, walks past it, inserts a second entry and returns
  \<open>PALMA_SUCCESS\<close>: the row holds the column indices \<open>[0, 0]\<close>, which do not ascend
  strictly.
\<close>

theorem sparse_set_wide_column_breaks_order:
  "palma_sparse_create True 1 4294967297 4 PALMA_MAXPLUS
     = (Some \<lparr>sp_values = [], sp_col_idx = [], sp_row_ptr = [0, 0], sp_rows = 1,
               sp_cols = 4294967297, sp_nnz = 0, sp_capacity = 4, sp_semiring = PALMA_MAXPLUS\<rparr>,
        PALMA_SUCCESS)
   \<and> palma_sparse_set True PALMA_SUCCESS
        (Some \<lparr>sp_values = [], sp_col_idx = [], sp_row_ptr = [0, 0], sp_rows = 1,
               sp_cols = 4294967297, sp_nnz = 0, sp_capacity = 4, sp_semiring = PALMA_MAXPLUS\<rparr>)
        0 4294967296 5
      = Some (PALMA_SUCCESS,
              Some \<lparr>sp_values = [5], sp_col_idx = [0], sp_row_ptr = [0, 1], sp_rows = 1,
                     sp_cols = 4294967297, sp_nnz = 1, sp_capacity = 4, sp_semiring = PALMA_MAXPLUS\<rparr>,
              PALMA_SUCCESS)
   \<and> sparse_ok \<lparr>sp_values = [5], sp_col_idx = [0], sp_row_ptr = [0, 1], sp_rows = 1,
                 sp_cols = 4294967297, sp_nnz = 1, sp_capacity = 4, sp_semiring = PALMA_MAXPLUS\<rparr>
   \<and> palma_sparse_set True PALMA_SUCCESS
        (Some \<lparr>sp_values = [5], sp_col_idx = [0], sp_row_ptr = [0, 1], sp_rows = 1,
               sp_cols = 4294967297, sp_nnz = 1, sp_capacity = 4, sp_semiring = PALMA_MAXPLUS\<rparr>)
        0 4294967296 6
      = Some (PALMA_SUCCESS,
              Some \<lparr>sp_values = [5, 6], sp_col_idx = [0, 0], sp_row_ptr = [0, 2], sp_rows = 1,
                     sp_cols = 4294967297, sp_nnz = 2, sp_capacity = 4, sp_semiring = PALMA_MAXPLUS\<rparr>,
              PALMA_SUCCESS)
   \<and> row_cols \<lparr>sp_values = [5, 6], sp_col_idx = [0, 0], sp_row_ptr = [0, 2], sp_rows = 1,
                sp_cols = 4294967297, sp_nnz = 2, sp_capacity = 4, sp_semiring = PALMA_MAXPLUS\<rparr> 0
       = [0, 0]
   \<and> \<not> sorted_wrt (<)
         (row_cols \<lparr>sp_values = [5, 6], sp_col_idx = [0, 0], sp_row_ptr = [0, 2], sp_rows = 1,
                    sp_cols = 4294967297, sp_nnz = 2, sp_capacity = 4, sp_semiring = PALMA_MAXPLUS\<rparr> 0)
   \<and> \<not> sparse_ok \<lparr>sp_values = [5, 6], sp_col_idx = [0, 0], sp_row_ptr = [0, 2], sp_rows = 1,
                   sp_cols = 4294967297, sp_nnz = 2, sp_capacity = 4, sp_semiring = PALMA_MAXPLUS\<rparr>"
proof -
  let ?S0 = "\<lparr>sp_values = [], sp_col_idx = [], sp_row_ptr = [0, 0], sp_rows = 1,
               sp_cols = 4294967297, sp_nnz = 0, sp_capacity = 4, sp_semiring = PALMA_MAXPLUS\<rparr>"
  let ?S1 = "\<lparr>sp_values = [5], sp_col_idx = [0], sp_row_ptr = [0, 1], sp_rows = 1,
               sp_cols = 4294967297, sp_nnz = 1, sp_capacity = 4, sp_semiring = PALMA_MAXPLUS\<rparr>"
  let ?S2 = "\<lparr>sp_values = [5, 6], sp_col_idx = [0, 0], sp_row_ptr = [0, 2], sp_rows = 1,
               sp_cols = 4294967297, sp_nnz = 2, sp_capacity = 4, sp_semiring = PALMA_MAXPLUS\<rparr>"
  have create: "palma_sparse_create True 1 4294967297 4 PALMA_MAXPLUS = (Some ?S0, PALMA_SUCCESS)"
    by (simp add: palma_sparse_create_def)
  have cast: "idx_cast 4294967296 = 0"
    by (simp add: idx_cast_def)
  have scan0: "sparse_set_scan [] 4294967296 0 0 = 0"
    by (subst sparse_set_scan.simps) simp
  have "sparse_set_scan [0] 4294967296 (Suc 0) (Suc 0) = Suc 0"
    by (subst sparse_set_scan.simps) simp
  then have scan1: "sparse_set_scan [0] 4294967296 (Suc 0) 0 = Suc 0"
    by (subst sparse_set_scan.simps) simp
  have bump0: "sparse_bump_row_ptr [0, 0] 0 (Suc 0) = [0, Suc 0]"
    by (simp add: sparse_bump_row_ptr_def idx_cast_def upt_rec)
  have bump1: "sparse_bump_row_ptr [0, Suc 0] 0 (Suc 0) = [0, 2]"
    by (simp add: sparse_bump_row_ptr_def idx_cast_def upt_rec)
  have set0: "palma_sparse_set True PALMA_SUCCESS (Some ?S0) 0 4294967296 5
      = Some (PALMA_SUCCESS, Some ?S1, PALMA_SUCCESS)"
    by (simp add: palma_sparse_set_def sparse_ensure_capacity_def cast scan0 bump0)
  have set1: "palma_sparse_set True PALMA_SUCCESS (Some ?S1) 0 4294967296 6
      = Some (PALMA_SUCCESS, Some ?S2, PALMA_SUCCESS)"
    by (simp add: palma_sparse_set_def sparse_ensure_capacity_def cast scan1 bump1)
  have ok1: "sparse_ok ?S1"
    by (simp add: sparse_ok_def row_cols_def)
  have cols2: "row_cols ?S2 0 = [0, 0]"
    by (simp add: row_cols_def upt_rec)
  then have unsorted: "\<not> sorted_wrt (<) (row_cols ?S2 0)"
    by simp
  then have bad2: "\<not> sparse_ok ?S2"
    by (simp add: sparse_ok_def)
  from create set0 ok1 set1 cols2 unsorted bad2 show ?thesis
    by blast
qed



section \<open>A converged power iteration is an eigenvector\<close>


lemma list_update_same:
  "xs ! i = v \<Longrightarrow> xs[i := v] = xs"
  using list_update_id [of xs i] by simp

lemma eigenvector_normalize_length [simp]:
  "length (eigenvector_normalize s lambda n y) = length y"
proof -
  have "(\<lambda>i y. if y ! i \<noteq> palma_zero s then y[i := y ! i - lambda] else y)
      = (\<lambda>i y. y[i := (if y ! i \<noteq> palma_zero s then y ! i - lambda else y ! i)])"
    by (intro ext) (simp add: list_update_same)
  then show ?thesis
    by (simp add: eigenvector_normalize_def bump_fold_length)
qed



lemma palma_matvec_length [simp]: "length (palma_matvec A x s) = rows A"
  by (simp add: palma_matvec_def)









section \<open>\<open>palma_eigenvalue\<close>: the table, the other semirings, Karp's rule\<close>

subsection \<open>The table of Karp's algorithm\<close>

lemma karp_fill_gen:
  fixes g :: "'a \<Rightarrow> 'a"
  defines "F \<equiv> \<lambda>m D0. fold (\<lambda>k D. D[k := g (D ! (k - 1))]) [1..<Suc m] D0"
  shows "length (F m D0) = length D0
     \<and> (m < length D0 \<longrightarrow> (\<forall>k. F m D0 ! k = (if k \<le> m then (g ^^ k) (D0 ! 0) else D0 ! k)))"
proof (induction m)
  case 0
  then show ?case by (simp add: F_def)
next
  case (Suc m)
  have step: "F (Suc m) D0 = (F m D0)[Suc m := g (F m D0 ! m)]"
    by (simp add: F_def)
  show ?case
  proof (intro conjI impI allI)
    show "length (F (Suc m) D0) = length D0"
      using Suc by (simp add: step)
  next
    fix k
    assume lt: "Suc m < length D0"
    with Suc have IH: "\<And>k. F m D0 ! k = (if k \<le> m then (g ^^ k) (D0 ! 0) else D0 ! k)"
      and len: "length (F m D0) = length D0"
      by simp_all
    show "F (Suc m) D0 ! k = (if k \<le> Suc m then (g ^^ k) (D0 ! 0) else D0 ! k)"
      using lt len IH [of m] IH [of k]
      by (cases "k = Suc m") (simp_all add: step nth_list_update)
  qed
qed

lemma karp_fill_nth:
  assumes "k \<le> n"
  shows "karp_fill A s n (karp_init s n) ! k = (karp_next A s n ^^ k) (replicate n (palma_one s))"
proof -
  have len: "n < length (karp_init s n)"
    by (simp add: karp_init_def)
  have zero: "karp_init s n ! 0 = replicate n (palma_one s)"
    by (simp add: karp_init_def nth_append upt_conv_Cons del: upt_Suc)
  have "karp_fill A s n (karp_init s n)
      = fold (\<lambda>k D. D[k := karp_next A s n (D ! (k - 1))]) [1..<Suc n] (karp_init s n)"
    by (simp add: karp_fill_def)
  with karp_fill_gen [where m = n and ?D0.0 = "karp_init s n" and g = "karp_next A s n"] len zero assms
  show ?thesis by simp
qed

lemma karp_row_length:
  "length ((karp_next A s n ^^ k) (replicate n c)) = n"
  by (cases k) (simp_all add: karp_next_def)

lemma karp_mean_other:
  "s \<noteq> PALMA_MAXPLUS \<Longrightarrow> s \<noteq> PALMA_MINPLUS \<Longrightarrow> karp_mean s n dn dk k = 0"
  by (simp add: karp_mean_def)

lemma zero_sless_POS_INF: "0 <s PALMA_POS_INF"
  by (simp add: word_sless_alt sint_POS_INF)

lemma NEG_INF_sless_zero: "PALMA_NEG_INF <s 0"
  by (simp add: word_sless_alt sint_NEG_INF)

lemma zero_neq_INF: "(0 :: palma_val_t) \<noteq> PALMA_POS_INF" "(0 :: palma_val_t) \<noteq> PALMA_NEG_INF"
  by (simp_all add: eq_POS_INF_iff eq_NEG_INF_iff)

lemma karp_min_for_v_other:
  assumes "s \<noteq> PALMA_MAXPLUS" "s \<noteq> PALMA_MINPLUS"
  shows "karp_min_for_v s n D v = (if \<exists>k<n. D ! k ! v \<noteq> palma_zero s then 0 else PALMA_POS_INF)"
proof -
  have "fold (\<lambda>k min_for_v.
             if D ! k ! v \<noteq> palma_zero s
             then (let mean = karp_mean s n (D ! n ! v) (D ! k ! v) k
                   in if mean <s min_for_v then mean else min_for_v)
             else min_for_v) [0..<m] PALMA_POS_INF
        = (if \<exists>k<m. D ! k ! v \<noteq> palma_zero s then 0 else PALMA_POS_INF)" for m
  proof (induction m)
    case 0
    then show ?case by simp
  next
    case (Suc m)
    then show ?case
      using assms
      by (auto simp: karp_mean_other zero_sless_POS_INF less_Suc_eq)
  qed
  then show ?thesis by (simp add: karp_min_for_v_def)
qed

lemma karp_max_mean_other:
  assumes "s \<noteq> PALMA_MAXPLUS" "s \<noteq> PALMA_MINPLUS"
    and row0: "\<And>v. v < n \<Longrightarrow> D ! 0 ! v \<noteq> palma_zero s"
  shows "karp_max_mean s n D = (if \<exists>v<n. D ! n ! v \<noteq> palma_zero s then 0 else PALMA_NEG_INF)"
proof -
  have minv: "karp_min_for_v s n D v = 0" if "v < n" for v
    using that row0 [OF that] by (auto simp: karp_min_for_v_other [OF assms(1,2)])
  have "fold (\<lambda>v max_mean.
             if D ! n ! v = palma_zero s then max_mean
             else (let min_for_v = karp_min_for_v s n D v
                   in if min_for_v \<noteq> PALMA_POS_INF \<and> max_mean <s min_for_v
                      then min_for_v else max_mean)) [0..<m] PALMA_NEG_INF
        = (if \<exists>v<m. D ! n ! v \<noteq> palma_zero s then 0 else PALMA_NEG_INF)" if "m \<le> n" for m
    using that
  proof (induction m)
    case 0
    then show ?case by simp
  next
    case (Suc m)
    then show ?case
      by (auto simp: minv zero_neq_INF NEG_INF_sless_zero less_Suc_eq)
  qed
  from this [of n] show ?thesis by (simp add: karp_max_mean_def)
qed

lemma one_neq_zero: "palma_one s \<noteq> palma_zero s"
  by (cases s) (simp_all add: zero_neq_INF NEG_INF_neq_POS_INF NEG_INF_neq_POS_INF [symmetric])

text \<open>
  Claim C2, as amended. For MaxMin, MinMax and Boolean, \<open>palma_eigenvalue\<close> on a square
  matrix does not report an unsupported operation: it clears the last-error slot and
  returns 0 when some \<open>D[n][v]\<close> is not the zero of the semiring, \<open>NEG_INF\<close>
  otherwise (every difference is taken as 0). No path of \<open>palma_eigenvalue\<close> stores
  \<open>PALMA_ERR_UNSUPPORTED\<close>.
\<close>

theorem eigenvalue_other_semirings:
  assumes s: "s = PALMA_MAXMIN \<or> s = PALMA_MINMAX \<or> s = PALMA_BOOLEAN"
    and sq: "rows A = cols A"
  shows "snd (palma_eigenvalue True (Some A) s) = PALMA_SUCCESS
     \<and> fst (palma_eigenvalue True (Some A) s)
         = (if \<exists>v < rows A. karp_fill A s (rows A) (karp_init s (rows A)) ! rows A ! v \<noteq> palma_zero s
            then 0 else PALMA_NEG_INF)
     \<and> snd (palma_eigenvalue alloc B s) \<noteq> PALMA_ERR_UNSUPPORTED"
proof -
  from s have ns: "s \<noteq> PALMA_MAXPLUS" "s \<noteq> PALMA_MINPLUS" by auto
  let ?D = "karp_fill A s (rows A) (karp_init s (rows A))"
  have row0: "?D ! 0 ! v \<noteq> palma_zero s" if "v < rows A" for v
    using that by (simp add: karp_fill_nth one_neq_zero)
  have "snd (palma_eigenvalue alloc B s) \<noteq> PALMA_ERR_UNSUPPORTED"
    by (simp add: palma_eigenvalue_def split: option.splits)
  with sq karp_max_mean_other [OF ns row0] show ?thesis
    by (simp add: palma_eigenvalue_def)
qed

theorem eigenvalue_other_semirings_witness:
  "rows example_maxmin = cols example_maxmin
   \<and> snd (palma_eigenvalue True (Some example_maxmin) PALMA_MAXMIN) = PALMA_SUCCESS
   \<and> fst (palma_eigenvalue True (Some example_maxmin) PALMA_MAXMIN) = 0
   \<and> karp_fill example_maxmin PALMA_MAXMIN 1 (karp_init PALMA_MAXMIN 1) ! 1 ! 0 = 5"
proof -
  have sq: "rows example_maxmin = cols example_maxmin"
    by code_simp
  have r: "rows example_maxmin = 1"
    by code_simp
  have D: "karp_fill example_maxmin PALMA_MAXMIN 1 (karp_init PALMA_MAXMIN 1) ! 1 ! 0 = 5"
    by code_simp
  have nz: "(5 :: palma_val_t) \<noteq> palma_zero PALMA_MAXMIN"
    by code_simp
  from D nz have "\<exists>v < rows example_maxmin.
         karp_fill example_maxmin PALMA_MAXMIN (rows example_maxmin)
           (karp_init PALMA_MAXMIN (rows example_maxmin)) ! rows example_maxmin ! v
         \<noteq> palma_zero PALMA_MAXMIN"
    unfolding r by (intro exI [of _ 0]) simp
  with eigenvalue_other_semirings [where s = PALMA_MAXMIN and A = example_maxmin, OF _ sq] sq D
  show ?thesis
    by simp
qed

text \<open>
  Claim C2 as stated fails on the 1 x 1 MaxMin matrix with the entry 5: the value is 0,
  not \<open>NEG_INF\<close>, and the last-error slot holds \<open>PALMA_SUCCESS\<close>.
\<close>

theorem eigenvalue_maxmin_returns_zero:
  "rows example_maxmin = cols example_maxmin
   \<and> palma_eigenvalue True (Some example_maxmin) PALMA_MAXMIN = (0, PALMA_SUCCESS)
   \<and> fst (palma_eigenvalue True (Some example_maxmin) PALMA_MAXMIN) \<noteq> PALMA_NEG_INF
   \<and> snd (palma_eigenvalue True (Some example_maxmin) PALMA_MAXMIN) \<noteq> PALMA_ERR_UNSUPPORTED"
  by code_simp


subsection \<open>The loop over \<open>u\<close> is the tropical sum\<close>

lemma palma_add_maxplus_NEG_INF [simp]: "palma_add acc PALMA_NEG_INF PALMA_MAXPLUS = acc"
proof (cases "acc = PALMA_NEG_INF")
  case True
  then show ?thesis by (simp add: NEG_INF_least)
next
  case False
  then have "sint acc \<noteq> - 2147483648"
    by (simp add: eq_NEG_INF_iff)
  with sint32_bounds [of acc] show ?thesis
    by (simp add: word_sless_alt sint_NEG_INF)
qed

lemma palma_mul_plus_NEG_INF [simp]:
  "palma_mul_plus PALMA_NEG_INF b = PALMA_NEG_INF" "palma_mul_plus a PALMA_NEG_INF = PALMA_NEG_INF"
  by (simp_all add: palma_mul_plus_def)

lemma karp_best_fold:
  "fold (\<lambda>u best.
             let edge = palma_matrix_get A u v in
             if edge \<noteq> palma_zero PALMA_MAXPLUS \<and> Dprev ! u \<noteq> palma_zero PALMA_MAXPLUS
             then palma_add best (palma_mul (Dprev ! u) edge PALMA_MAXPLUS) PALMA_MAXPLUS
             else best) us acc
   = fold (\<lambda>x acc. palma_add acc x PALMA_MAXPLUS)
       (map (\<lambda>u. palma_mul (Dprev ! u) (palma_matrix_get A u v) PALMA_MAXPLUS) us) acc"
proof (induction us arbitrary: acc)
  case Nil
  then show ?case by simp
next
  case (Cons u us)
  have "(let edge = palma_matrix_get A u v in
             if edge \<noteq> palma_zero PALMA_MAXPLUS \<and> Dprev ! u \<noteq> palma_zero PALMA_MAXPLUS
             then palma_add acc (palma_mul (Dprev ! u) edge PALMA_MAXPLUS) PALMA_MAXPLUS
             else acc)
        = palma_add acc (palma_mul (Dprev ! u) (palma_matrix_get A u v) PALMA_MAXPLUS) PALMA_MAXPLUS"
    by (cases "palma_matrix_get A u v = PALMA_NEG_INF"; cases "Dprev ! u = PALMA_NEG_INF")
      (simp_all add: Let_def del: palma_add.simps)
  with Cons.IH show ?case by (simp del: palma_add.simps)
qed

lemma karp_best_maxplus:
  "karp_best A PALMA_MAXPLUS n Dprev v =
     tropical_sum PALMA_MAXPLUS
       (map (\<lambda>u. palma_mul (Dprev ! u) (palma_matrix_get A u v) PALMA_MAXPLUS) [0..<n])"
  unfolding karp_best_def tropical_sum_def by (rule karp_best_fold)

lemma karp_rows_spec:
  "(karp_next A PALMA_MAXPLUS (rows A) ^^ k) (replicate (rows A) 0)
     = map (spec_karp_D A k) [0..<rows A]"
proof (induction k)
  case 0
  show ?case by (simp add: map_replicate_const)
next
  case (Suc k)
  have inner: "map (\<lambda>u. palma_mul (map (spec_karp_D A k) [0..<rows A] ! u) (palma_matrix_get A u v) PALMA_MAXPLUS)
                 [0..<rows A]
             = map (\<lambda>u. palma_mul (spec_karp_D A k u) (palma_matrix_get A u v) PALMA_MAXPLUS)
                 [0..<rows A]" for v
    by (rule map_cong) simp_all
  have "karp_next A PALMA_MAXPLUS (rows A) (map (spec_karp_D A k) [0..<rows A])
      = map (spec_karp_D A (Suc k)) [0..<rows A]"
    unfolding karp_next_def karp_best_maxplus inner by simp
  with Suc show ?case by simp
qed

lemma karp_table_spec:
  assumes "k \<le> rows A" "v < rows A"
  shows "karp_fill A PALMA_MAXPLUS (rows A) (karp_init PALMA_MAXPLUS (rows A)) ! k ! v
           = spec_karp_D A k v"
  using assms by (simp add: karp_fill_nth karp_rows_spec)


subsection \<open>The two selection loops\<close>

lemma fold_smin:
  "sint (fold (\<lambda>k m. if P k then (let mean = f k in if mean <s m then mean else m) else m) ks m0)
     = fold min (map (\<lambda>k. sint (f k)) (filter P ks)) (sint m0)"
  by (induction ks arbitrary: m0) (auto simp: Let_def word_sless_alt min_def)

lemma fold_smax:
  "sint (fold (\<lambda>v mm. if Q v then (let m = g v in if mm <s m then m else mm) else mm) vs mm0)
     = fold max (map (\<lambda>v. sint (g v)) (filter Q vs)) (sint mm0)"
  by (induction vs arbitrary: mm0) (auto simp: Let_def word_sless_alt max_def)

lemma fold_min_bounded:
  fixes xs :: "int list"
  assumes "xs \<noteq> []" "\<And>x. x \<in> set xs \<Longrightarrow> x \<le> a"
  shows "fold min xs a = Min (set xs)"
proof -
  have "fold min xs a = Min (set (a # xs))"
    by (simp only: Min.set_eq_fold)
  also have "\<dots> = min a (Min (set xs))"
    using assms(1) by simp
  also have "\<dots> = Min (set xs)"
  proof -
    from assms(1) have "Min (set xs) \<in> set xs"
      by (simp add: Min_in)
    then have "Min (set xs) \<le> a"
      by (rule assms(2))
    then show ?thesis by (simp add: min_def)
  qed
  finally show ?thesis .
qed

lemma fold_max_bounded:
  fixes xs :: "int list"
  assumes "\<And>x. x \<in> set xs \<Longrightarrow> a \<le> x"
  shows "fold max xs a = (if xs = [] then a else Max (set xs))"
proof (cases "xs = []")
  case True
  then show ?thesis by simp
next
  case False
  have "fold max xs a = Max (set (a # xs))"
    by (simp only: Max.set_eq_fold)
  also have "\<dots> = max a (Max (set xs))"
    using False by simp
  also have "\<dots> = Max (set xs)"
  proof -
    from False have "Max (set xs) \<in> set xs"
      by (simp add: Max_in)
    then have "a \<le> Max (set xs)"
      by (rule assms)
    then show ?thesis by (simp add: max_def)
  qed
  finally show ?thesis using False by simp
qed

lemma narrow32_bounds: "INT32_MIN \<le> narrow32 q \<and> narrow32 q \<le> INT32_MAX"
  using sint32_bounds [of "word_of_int q"] by (simp add: narrow32_def INT32_MIN_def INT32_MAX_def)

lemma sint_karp_mean_maxplus:
  "sint (karp_mean PALMA_MAXPLUS n dn dk k) = narrow32 ((sint dn - sint dk) sdiv int (n - k))"
  by (simp add: karp_mean_def narrow32_def)

lemma spec_karp_D_0_nonzero: "spec_karp_D A 0 v \<noteq> palma_zero PALMA_MAXPLUS"
  by (simp add: zero_neq_INF)

lemma karp_min_for_v_spec:
  assumes v: "v < rows A"
  defines "D \<equiv> karp_fill A PALMA_MAXPLUS (rows A) (karp_init PALMA_MAXPLUS (rows A))"
  shows "sint (karp_min_for_v PALMA_MAXPLUS (rows A) D v) = karp_min_mean32 A v"
proof -
  let ?n = "rows A"
  let ?ks = "filter (\<lambda>k. spec_karp_D A k v \<noteq> palma_zero PALMA_MAXPLUS) [0..<?n]"
  have tab: "D ! k ! v = spec_karp_D A k v" if "k \<le> ?n" for k
    unfolding D_def using that v by (rule karp_table_spec)
  have ks: "filter (\<lambda>k. D ! k ! v \<noteq> palma_zero PALMA_MAXPLUS) [0..<?n] = ?ks"
    by (rule filter_cong) (simp_all add: tab)
  have means: "map (\<lambda>k. sint (karp_mean PALMA_MAXPLUS ?n (D ! ?n ! v) (D ! k ! v) k)) ?ks
             = map (\<lambda>k. narrow32 (spec_mean A v k)) ?ks"
    by (rule map_cong) (simp_all add: tab sint_karp_mean_maxplus spec_mean_def)
  have "sint (karp_min_for_v PALMA_MAXPLUS ?n D v)
      = fold min (map (\<lambda>k. narrow32 (spec_mean A v k)) ?ks) INT32_MAX"
    unfolding karp_min_for_v_def fold_smin ks means by (simp add: sint_POS_INF INT32_MAX_def)
  also have "\<dots> = Min (set (map (\<lambda>k. narrow32 (spec_mean A v k)) ?ks))"
  proof (rule fold_min_bounded)
    from v have "0 \<in> set ?ks"
      by (simp add: zero_neq_INF)
    then have "0 < length ?ks"
      by (rule length_pos_if_in_set)
    then show "map (\<lambda>k. narrow32 (spec_mean A v k)) ?ks \<noteq> []"
      by simp
  next
    fix x assume "x \<in> set (map (\<lambda>k. narrow32 (spec_mean A v k)) ?ks)"
    then show "x \<le> INT32_MAX"
      using narrow32_bounds by auto
  qed
  finally show ?thesis
    by (simp add: karp_min_mean32_def)
qed

lemma karp_max_mean_spec:
  fixes A :: palma_matrix_t
  defines "D \<equiv> karp_fill A PALMA_MAXPLUS (rows A) (karp_init PALMA_MAXPLUS (rows A))"
  shows "sint (karp_max_mean PALMA_MAXPLUS (rows A) D) = karp_lambda32 A"
proof -
  let ?n = "rows A"
  let ?g = "\<lambda>v. karp_min_for_v PALMA_MAXPLUS ?n D v"
  let ?Q = "\<lambda>v. D ! ?n ! v \<noteq> palma_zero PALMA_MAXPLUS \<and> ?g v \<noteq> PALMA_POS_INF"
  let ?Q' = "\<lambda>v. spec_karp_D A ?n v \<noteq> palma_zero PALMA_MAXPLUS \<and> karp_min_mean32 A v \<noteq> INT32_MAX"
  have body: "(\<lambda>v max_mean.
             if D ! ?n ! v = palma_zero PALMA_MAXPLUS then max_mean
             else (let min_for_v = ?g v
                   in if min_for_v \<noteq> PALMA_POS_INF \<and> max_mean <s min_for_v
                      then min_for_v else max_mean))
        = (\<lambda>v mm. if ?Q v then (let m = ?g v in if mm <s m then m else mm) else mm)"
    by (intro ext) (simp add: Let_def)
  have g: "sint (?g v) = karp_min_mean32 A v" if "v < ?n" for v
    unfolding D_def using that by (rule karp_min_for_v_spec)
  have Q: "?Q v \<longleftrightarrow> ?Q' v" if "v < ?n" for v
    using that g [OF that] karp_table_spec [of ?n A v]
    by (simp add: D_def eq_POS_INF_iff INT32_MAX_def)
  have vs: "filter ?Q [0..<?n] = filter ?Q' [0..<?n]"
    by (rule filter_cong) (use Q in simp_all)
  have cands: "map (\<lambda>v. sint (?g v)) (filter ?Q' [0..<?n]) = map (karp_min_mean32 A) (filter ?Q' [0..<?n])"
    by (rule map_cong) (simp_all add: g)
  have "sint (karp_max_mean PALMA_MAXPLUS ?n D)
      = fold max (map (karp_min_mean32 A) (filter ?Q' [0..<?n])) INT32_MIN"
    unfolding karp_max_mean_def body fold_smax vs cands by (simp add: sint_NEG_INF INT32_MIN_def)
  also have "\<dots> = (if map (karp_min_mean32 A) (filter ?Q' [0..<?n]) = [] then INT32_MIN
                    else Max (set (map (karp_min_mean32 A) (filter ?Q' [0..<?n]))))"
  proof (rule fold_max_bounded)
    fix x assume "x \<in> set (map (karp_min_mean32 A) (filter ?Q' [0..<?n]))"
    then obtain v where "v < ?n" "x = karp_min_mean32 A v" by auto
    with g [of v] sint32_bounds [of "?g v"] show "INT32_MIN \<le> x"
      by (simp add: INT32_MIN_def)
  qed
  finally show ?thesis
    by (simp add: karp_lambda32_def Let_def)
qed

text \<open>
  Claim C4, as amended. For every square MaxPlus matrix \<open>palma_eigenvalue\<close> clears the
  last-error slot and returns Karp's rule over the table \<open>D\<close> of the specification in
  the form \<open>karp_lambda32\<close>: the maximum over the \<open>v\<close> with \<open>D[n][v]\<close> not \<open>\<epsilon>\<close> of
  the minimum over the \<open>k < n\<close> with \<open>D[k][v]\<close> not \<open>\<epsilon>\<close> of the truncated quotient
  \<open>(D[n][v] - D[k][v]) / (n - k)\<close> converted to 32 bits, where a \<open>v\<close> whose minimum
  is \<open>INT32_MAX\<close> is skipped, and \<open>NEG_INF\<close> when no \<open>v\<close> is left. On the 3-cycle
  of scenario C it returns 4. By \<open>karp_lambda32_eq_spec\<close> this is the rule of the
  specification whenever every quotient fits 32 bits and no minimum is \<open>INT32_MAX\<close>.
\<close>

theorem karp_eigenvalue_maxplus:
  assumes "rows A = cols A"
  shows "snd (palma_eigenvalue True (Some A) PALMA_MAXPLUS) = PALMA_SUCCESS
     \<and> sint (fst (palma_eigenvalue True (Some A) PALMA_MAXPLUS)) = karp_lambda32 A
     \<and> fst (palma_eigenvalue True (Some example_A1) PALMA_MAXPLUS) = 4"
proof -
  have "fst (palma_eigenvalue True (Some example_A1) PALMA_MAXPLUS) = 4"
    by code_simp
  with assms karp_max_mean_spec [of A] show ?thesis
    by (simp add: palma_eigenvalue_def)
qed


lemma narrow32_id: "INT32_MIN \<le> q \<Longrightarrow> q \<le> INT32_MAX \<Longrightarrow> narrow32 q = q"
  by (simp add: narrow32_def sint32_of_int INT32_MIN_def INT32_MAX_def)

lemma karp_lambda32_eq_spec:
  assumes fit: "\<And>v k. v < rows A \<Longrightarrow> k < rows A \<Longrightarrow>
                  spec_karp_D A (rows A) v \<noteq> palma_zero PALMA_MAXPLUS \<Longrightarrow>
                  spec_karp_D A k v \<noteq> palma_zero PALMA_MAXPLUS \<Longrightarrow>
                  INT32_MIN \<le> spec_mean A v k \<and> spec_mean A v k \<le> INT32_MAX"
    and nomax: "\<And>v. v < rows A \<Longrightarrow> spec_karp_D A (rows A) v \<noteq> palma_zero PALMA_MAXPLUS \<Longrightarrow>
                  spec_min_mean A v \<noteq> INT32_MAX"
  shows "karp_lambda32 A = spec_karp_lambda A"
proof -
  let ?n = "rows A"
  let ?P = "\<lambda>v. spec_karp_D A ?n v \<noteq> palma_zero PALMA_MAXPLUS"
  have m: "karp_min_mean32 A v = spec_min_mean A v" if "v < ?n" "?P v" for v
  proof -
    have "map (\<lambda>k. narrow32 (spec_mean A v k))
              (filter (\<lambda>k. spec_karp_D A k v \<noteq> palma_zero PALMA_MAXPLUS) [0..<?n])
        = map (spec_mean A v)
              (filter (\<lambda>k. spec_karp_D A k v \<noteq> palma_zero PALMA_MAXPLUS) [0..<?n])"
      by (rule map_cong) (use fit [OF that(1) _ that(2)] in \<open>auto simp: narrow32_id\<close>)
    then show ?thesis
      by (simp only: karp_min_mean32_def spec_min_mean_def)
  qed
  have vs: "filter (\<lambda>v. ?P v \<and> karp_min_mean32 A v \<noteq> INT32_MAX) [0..<?n] = filter ?P [0..<?n]"
    by (rule filter_cong) (use m nomax in auto)
  have "map (karp_min_mean32 A) (filter ?P [0..<?n]) = map (spec_min_mean A) (filter ?P [0..<?n])"
    by (rule map_cong) (use m in auto)
  then show ?thesis
    unfolding karp_lambda32_def spec_karp_lambda_def vs by (simp only: Let_def)
qed

theorem karp_eigenvalue_maxplus_witness:
  "rows example_A1 = cols example_A1
   \<and> sint (fst (palma_eigenvalue True (Some example_A1) PALMA_MAXPLUS)) = karp_lambda32 example_A1
   \<and> karp_lambda32 example_A1 = 4"
proof -
  have sq: "rows example_A1 = cols example_A1"
    by code_simp
  have four: "sint (fst (palma_eigenvalue True (Some example_A1) PALMA_MAXPLUS)) = 4"
    by code_simp
  from karp_eigenvalue_maxplus [OF sq] sq four show ?thesis
    by metis
qed

text \<open>
  Claim C4 as stated fails on two matrices. On the 1 x 1 matrix with the entry
  \<open>POS_INF\<close> the only minimum is \<open>INT32_MAX\<close> and the source returns \<open>NEG_INF\<close>. On
  the 2 x 2 matrix \<open>karp_counterexample_2\<close> the quotient \<open>D[2][0] - D[1][0]\<close> is
  \<open>2^32 - 3\<close>, which the conversion to 32 bits turns into \<open>-3\<close>: the source returns 0
  and the rule on the integers gives 1073741823.
\<close>

theorem karp_rule_fails_at_the_extremes:
  "rows karp_counterexample_1 = cols karp_counterexample_1
   \<and> sint (fst (palma_eigenvalue True (Some karp_counterexample_1) PALMA_MAXPLUS)) = - 2147483648
   \<and> spec_karp_lambda karp_counterexample_1 = 2147483647
   \<and> rows karp_counterexample_2 = cols karp_counterexample_2
   \<and> sint (fst (palma_eigenvalue True (Some karp_counterexample_2) PALMA_MAXPLUS)) = 0
   \<and> spec_karp_lambda karp_counterexample_2 = 1073741823"
  by code_simp

section \<open>Dense and sparse conversions (palma.c)\<close>

subsection \<open>What \<open>palma_sparse_from_dense\<close> builds\<close>









subsection \<open>What \<open>palma_sparse_to_dense\<close> builds\<close>




lemma palma_matrix_set_shape [simp]:
  "rows (palma_matrix_set d i j v) = rows d"
  "cols (palma_matrix_set d i j v) = cols d"
  "stride (palma_matrix_set d i j v) = stride d"
  "length (data (palma_matrix_set d i j v)) = length (data d)"
  by (simp_all add: palma_matrix_set_def)



lemma to_dense_row_shape [simp]:
  "rows (to_dense_row S i d) = rows d"
  "cols (to_dense_row S i d) = cols d"
  "stride (to_dense_row S i d) = stride d"
  "length (data (to_dense_row S i d)) = length (data d)"
proof -
  have "rows (fold (\<lambda>k d. palma_matrix_set d i (sp_col_idx S ! k) (sp_values S ! k)) ks d) = rows d
    \<and> cols (fold (\<lambda>k d. palma_matrix_set d i (sp_col_idx S ! k) (sp_values S ! k)) ks d) = cols d
    \<and> stride (fold (\<lambda>k d. palma_matrix_set d i (sp_col_idx S ! k) (sp_values S ! k)) ks d) = stride d
    \<and> length (data (fold (\<lambda>k d. palma_matrix_set d i (sp_col_idx S ! k) (sp_values S ! k)) ks d))
        = length (data d)" for ks
    by (induction ks arbitrary: d) simp_all
  then show "rows (to_dense_row S i d) = rows d"
    "cols (to_dense_row S i d) = cols d"
    "stride (to_dense_row S i d) = stride d"
    "length (data (to_dense_row S i d)) = length (data d)"
    by (simp_all add: to_dense_row_def)
qed







subsection \<open>Rows as association lists\<close>



















lemma row_vals_length [simp]: "length (row_vals S i) = length (row_cols S i)"
  by (simp add: row_vals_def row_cols_def)












end
